theory Spec2Isabelle
  imports Complex_Main "HOL-Library.AList" "HOL-Library.Multiset" "HOL-Library.Product_Lexorder"
begin

text \<open>
  A model of \<open>src/ShortCuts/registry/shortcutsRegistry.ts\<close>: the parser and the matcher
  of key combinations, the registry of shortcuts with its debounced snapshot, and the
  key-press handler. Each definition follows the source function of the same name.
  Mutable module state is passed explicitly, a callback that throws is a \<open>Throw\<close> result
  of calling it, and the \<open>try\<close>/\<open>catch\<close> blocks of the source are the branches on that
  result.
\<close>

section \<open>Strings\<close>

text \<open>
  A string is a list of 8-bit code units. \<open>toLowerCase\<close> and \<open>trim\<close> are the two
  \<open>String.prototype\<close> methods the registry uses; they are modelled on the ASCII range:
  the letters \<open>A\<close> to \<open>Z\<close> are lowered, every other unit is left as it is, and white
  space is TAB, LF, VT, FF, CR and the space character.
\<close>

definition lower_char :: "char \<Rightarrow> char" where
  "lower_char c =
     (let n = (of_char c :: nat) in if 65 \<le> n \<and> n \<le> 90 then char_of (n + 32) else c)"

definition toLowerCase :: "string \<Rightarrow> string" where
  "toLowerCase s = map lower_char s"

definition is_space :: "char \<Rightarrow> bool" where
  "is_space c = (let n = (of_char c :: nat) in (9 \<le> n \<and> n \<le> 13) \<or> n = 32)"

definition trim :: "string \<Rightarrow> string" where
  "trim s = rev (dropWhile is_space (rev (dropWhile is_space s)))"

text \<open>
  \<open>s.split(sep)\<close> with a one-character separator: the pieces between the separators,
  so that the empty string gives one empty piece and \<open>n\<close> separators give \<open>n + 1\<close> pieces.
\<close>

fun split :: "char \<Rightarrow> string \<Rightarrow> string list" where
  "split sep [] = [[]]"
| "split sep (c # cs) =
     (if c = sep then [] # split sep cs
      else (case split sep cs of [] \<Rightarrow> [[c]] | t # ts \<Rightarrow> (c # t) # ts))"

section \<open>Key combinations\<close>

text \<open>
  \<open>interface KeyCombination\<close>: the base key and four optional flags. An optional
  field that was never assigned is \<open>None\<close> (\<open>undefined\<close>); \<open>truthy\<close> is the \<open>!!\<close> of the source.
\<close>

record KeyCombination =
  key :: string
  ctrlKey :: "bool option"
  shiftKey :: "bool option"
  altKey :: "bool option"
  metaKey :: "bool option"

definition truthy :: "bool option \<Rightarrow> bool" where
  "truthy b = (case b of None \<Rightarrow> False | Some v \<Rightarrow> v)"

text \<open>The body of the \<open>for\<close> loop of \<open>parseKeyCombo\<close>: one \<open>switch\<close> on the trimmed part.\<close>

definition parse_part :: "KeyCombination \<Rightarrow> string \<Rightarrow> KeyCombination" where
  "parse_part result part =
     (let t = trim part in
      if t = ''ctrl'' \<or> t = ''control'' then result\<lparr>ctrlKey := Some True\<rparr>
      else if t = ''shift'' then result\<lparr>shiftKey := Some True\<rparr>
      else if t = ''alt'' then result\<lparr>altKey := Some True\<rparr>
      else if t = ''cmd'' \<or> t = ''meta'' then result\<lparr>metaKey := Some True\<rparr>
      else result\<lparr>key := t\<rparr>)"

definition parseKeyCombo :: "string \<Rightarrow> KeyCombination" where
  "parseKeyCombo keyCombo =
     (let parts = split CHR ''+'' (toLowerCase keyCombo);
          result = \<lparr>key = '''', ctrlKey = None, shiftKey = None, altKey = None, metaKey = None\<rparr>
      in foldl parse_part result parts)"

section \<open>Keyboard events\<close>

text \<open>
  The part of a DOM \<open>KeyboardEvent\<close> the handler reads or writes. The fields carry the
  prefix \<open>ev_\<close> because \<open>KeyCombination\<close> has fields of the same names. The target is
  described by the interface it is an instance of and by its \<open>contentEditable\<close> property
  (\<open>None\<close> where the target has no such property, as \<open>document\<close> and \<open>window\<close>).
  \<open>preventDefault()\<close> and \<open>stopPropagation()\<close> set the two flags at the end.
\<close>

datatype element_class =
  HTMLInputElement | HTMLTextAreaElement | HTMLSelectElement | OtherTarget

record event_target =
  instance_of :: element_class
  contentEditable :: "string option"

record KeyboardEvent =
  ev_key :: string
  ev_code :: string
  ev_ctrlKey :: bool
  ev_shiftKey :: bool
  ev_altKey :: bool
  ev_metaKey :: bool
  ev_target :: event_target
  defaultPrevented :: bool
  propagationStopped :: bool

text \<open>The three lines under \<open>// Normalize the key\<close> of \<open>matchesKeyCombo\<close>.\<close>

definition normalizeKey :: "string \<Rightarrow> string" where
  "normalizeKey k =
     (let eventKey = toLowerCase k;
          eventKey = (if eventKey = '' '' then ''space'' else eventKey);
          eventKey = (if eventKey = ''escape'' then ''esc'' else eventKey)
      in eventKey)"

definition matchesKeyCombo :: "KeyboardEvent \<Rightarrow> string \<Rightarrow> bool" where
  "matchesKeyCombo event keyCombo =
     (let combo = parseKeyCombo keyCombo;
          eventKey = normalizeKey (ev_key event);
          keyMatches = (eventKey = key combo \<or> toLowerCase (ev_code event) = ''key'' @ key combo);
          ctrlMatches = (truthy (ctrlKey combo) = (ev_ctrlKey event \<or> ev_metaKey event));
          shiftMatches = (truthy (shiftKey combo) = ev_shiftKey event);
          altMatches = (truthy (altKey combo) = ev_altKey event)
      in keyMatches \<and> ctrlMatches \<and> shiftMatches \<and> altMatches)"

section \<open>Numbers\<close>

text \<open>
  A JavaScript number as the sorts of the module see one: \<open>NaN\<close>, one of the two
  infinities, or a finite value. A finite double is a rational number. \<open>number_minus\<close> is
  the operator \<open>-\<close>; the difference of two finite values is taken exactly, and the exact
  difference has the sign of the double difference (which is rounded, and is an infinity
  on overflow). A sort reads nothing but that sign.
\<close>

datatype number = NaN | NegInfinity | Finite rat | Infinity

fun number_minus :: "number \<Rightarrow> number \<Rightarrow> number" where
  "number_minus NaN y = NaN"
| "number_minus x NaN = NaN"
| "number_minus (Finite a) (Finite b) = Finite (a - b)"
| "number_minus (Finite a) Infinity = NegInfinity"
| "number_minus (Finite a) NegInfinity = Infinity"
| "number_minus Infinity Infinity = NaN"
| "number_minus Infinity y = Infinity"
| "number_minus NegInfinity NegInfinity = NaN"
| "number_minus NegInfinity y = NegInfinity"

text \<open>\<open>v > 0\<close>; it is false of \<open>NaN\<close>.\<close>

definition positive :: "number \<Rightarrow> bool" where
  "positive v = (case v of Infinity \<Rightarrow> True | Finite r \<Rightarrow> 0 < r | _ \<Rightarrow> False)"

text \<open>
  \<open>x <= y\<close>, false when either side is \<open>NaN\<close>; the statements about sorted sequences
  are worded with it. \<open>rank\<close> embeds the numbers in a linear order that agrees with
  \<open>number_le\<close> away from \<open>NaN\<close>.
\<close>

fun number_le :: "number \<Rightarrow> number \<Rightarrow> bool" where
  "number_le NaN y = False"
| "number_le x NaN = False"
| "number_le NegInfinity y = True"
| "number_le x Infinity = True"
| "number_le (Finite a) (Finite b) = (a \<le> b)"
| "number_le x y = False"

definition rank :: "number \<Rightarrow> nat \<times> rat" where
  "rank v =
     (case v of NegInfinity \<Rightarrow> (0, 0) | Finite r \<Rightarrow> (1, r) | Infinity \<Rightarrow> (2, 0) | NaN \<Rightarrow> (3, 0))"

section \<open>Maps, objects and arrays\<close>

text \<open>
  A \<open>Map\<close> keeps its keys in insertion order, and \<open>set\<close> on a key that is present keeps
  the key's position: it is an association list, \<open>Map.set\<close> is \<^const>\<open>AList.update\<close>,
  \<open>Map.delete\<close> is \<^const>\<open>AList.delete\<close>, \<open>Map.get\<close> is \<^const>\<open>map_of\<close>,
  \<open>Map.values\<close> and \<open>Map.forEach\<close> follow the list.
\<close>

type_synonym ('k, 'v) Map = "('k \<times> 'v) list"

abbreviation Map_get :: "('k, 'v) Map \<Rightarrow> 'k \<Rightarrow> 'v option" where
  "Map_get m k \<equiv> map_of m k"

abbreviation Map_has :: "('k, 'v) Map \<Rightarrow> 'k \<Rightarrow> bool" where
  "Map_has m k \<equiv> map_of m k \<noteq> None"

abbreviation Map_set :: "'k \<Rightarrow> 'v \<Rightarrow> ('k, 'v) Map \<Rightarrow> ('k, 'v) Map" where
  "Map_set k v m \<equiv> AList.update k v m"

abbreviation Map_delete :: "'k \<Rightarrow> ('k, 'v) Map \<Rightarrow> ('k, 'v) Map" where
  "Map_delete k m \<equiv> AList.delete k m"

abbreviation Map_values :: "('k, 'v) Map \<Rightarrow> 'v list" where
  "Map_values m \<equiv> map snd m"

abbreviation Map_size :: "('k, 'v) Map \<Rightarrow> nat" where
  "Map_size m \<equiv> length m"

text \<open>A \<open>Map\<close> has every key once.\<close>

definition Map_ok :: "('k, 'v) Map \<Rightarrow> bool" where
  "Map_ok m = distinct (map fst m)"

text \<open>
  A plain object used as \<open>Record<string, T>\<close>: its own properties, an association list
  in the order in which they were created, and its prototype. The prototype is
  \<open>Object.prototype\<close> (\<open>None\<close>) until a value is assigned to the property \<open>__proto__\<close>,
  whose setter makes that value the prototype. \<open>Object.values\<close> and \<open>Object.entries\<close>
  enumerate own properties only: the keys that are array indices (the canonical decimal
  numerals below \<open>2 ^ 32 - 1\<close>) first, in ascending numeric order, and then the other keys
  in creation order.
\<close>

record 'v Object =
  own :: "(string \<times> 'v) list"
  proto :: "'v option"

definition is_digit :: "char \<Rightarrow> bool" where
  "is_digit c = (let n = (of_char c :: nat) in 48 \<le> n \<and> n \<le> 57)"

definition index_value :: "string \<Rightarrow> int" where
  "index_value k = foldl (\<lambda>n c. 10 * n + (of_char c - 48)) 0 k"

definition is_array_index :: "string \<Rightarrow> bool" where
  "is_array_index k =
     (k \<noteq> [] \<and> list_all is_digit k \<and> (k = ''0'' \<or> hd k \<noteq> CHR ''0'') \<and>
      index_value k < 4294967295)"

definition Object_entries :: "'v Object \<Rightarrow> (string \<times> 'v) list" where
  "Object_entries obj =
     sort_key (\<lambda>p. index_value (fst p)) (filter (\<lambda>p. is_array_index (fst p)) (own obj)) @
     filter (\<lambda>p. \<not> is_array_index (fst p)) (own obj)"

definition Object_values :: "'v Object \<Rightarrow> 'v list" where
  "Object_values obj = map snd (Object_entries obj)"

text \<open>
  Reading \<open>obj[k]\<close> on an object whose own values are arrays walks the prototype chain.
  An own property gives its array. Otherwise, under \<open>Object.prototype\<close> the names of its
  members give an inherited value (a built-in function, or for \<open>__proto__\<close> the prototype
  itself) and every other name gives \<open>undefined\<close>. When the prototype is an array,
  \<open>__proto__\<close> gives that array, an index below its length gives its element, \<open>length\<close>
  its length, and the names of the members of \<open>Array.prototype\<close> and of
  \<open>Object.prototype\<close> give inherited values. The members are those of ECMAScript 2023
  with the legacy accessors of its Annex B.
\<close>

datatype 'a property = Undefined | ArrayValue "'a list" | Element 'a | Length nat | Inherited

definition Object_prototype_keys :: "string list" where
  "Object_prototype_keys =
     [''constructor'', ''__defineGetter__'', ''__defineSetter__'', ''hasOwnProperty'',
      ''__lookupGetter__'', ''__lookupSetter__'', ''isPrototypeOf'', ''propertyIsEnumerable'',
      ''toString'', ''valueOf'', ''__proto__'', ''toLocaleString'']"

definition Array_prototype_keys :: "string list" where
  "Array_prototype_keys =
     [''length'', ''constructor'', ''at'', ''concat'', ''copyWithin'', ''fill'', ''find'',
      ''findIndex'', ''findLast'', ''findLastIndex'', ''lastIndexOf'', ''pop'', ''push'',
      ''reverse'', ''shift'', ''unshift'', ''slice'', ''sort'', ''splice'', ''includes'',
      ''indexOf'', ''join'', ''keys'', ''entries'', ''values'', ''forEach'', ''filter'',
      ''flat'', ''flatMap'', ''map'', ''every'', ''some'', ''reduce'', ''reduceRight'',
      ''toLocaleString'', ''toString'', ''toReversed'', ''toSorted'', ''toSpliced'', ''with'']"

definition get_property :: "'a list Object \<Rightarrow> string \<Rightarrow> 'a property" where
  "get_property obj k =
     (case map_of (own obj) k of
        Some xs \<Rightarrow> ArrayValue xs
      | None \<Rightarrow>
          (case proto obj of
             None \<Rightarrow> if k \<in> set Object_prototype_keys then Inherited else Undefined
           | Some xs \<Rightarrow>
               if k = ''__proto__'' then ArrayValue xs
               else if is_array_index k \<and> index_value k < int (length xs)
                 then Element (xs ! nat (index_value k))
               else if k = ''length'' then Length (length xs)
               else if k \<in> set Array_prototype_keys \<or> k \<in> set Object_prototype_keys
                 then Inherited
               else Undefined))"

text \<open>
  The assignment \<open>obj[k] = v\<close> of an array: it creates or overwrites an own property,
  except that for \<open>__proto__\<close>, when the object has no own property of that name, the
  inherited setter replaces the prototype and no own property is created.
\<close>

definition set_property :: "'a list Object \<Rightarrow> string \<Rightarrow> 'a list \<Rightarrow> 'a list Object" where
  "set_property obj k v =
     (if k = ''__proto__'' \<and> map_of (own obj) k = None then obj\<lparr>proto := Some v\<rparr>
      else obj\<lparr>own := AList.update k v (own obj)\<rparr>)"

text \<open>
  The truth value of a property value: \<open>undefined\<close> and the number 0 are false; arrays,
  entries, functions and objects are true.
\<close>

definition ToBoolean :: "'a property \<Rightarrow> bool" where
  "ToBoolean v = (case v of Undefined \<Rightarrow> False | Length n \<Rightarrow> n \<noteq> 0 | _ \<Rightarrow> True)"

text \<open>
  \<open>Array.prototype.sort\<close> with a comparison function. It reads a \<open>NaN\<close> result of the
  comparison as \<open>+0\<close>, so an element \<open>x\<close> stays in front of \<open>y\<close> unless the comparison of
  \<open>x\<close> with \<open>y\<close> is positive, and it is stable. For a comparison function that is not
  consistent the language leaves the resulting sequence to the implementation; the
  insertion sort below is the model's choice there.
\<close>

fun sort_insert :: "('a \<Rightarrow> 'a \<Rightarrow> number) \<Rightarrow> 'a \<Rightarrow> 'a list \<Rightarrow> 'a list" where
  "sort_insert cmp x [] = [x]"
| "sort_insert cmp x (y # ys) =
     (if \<not> positive (cmp x y) then x # y # ys else y # sort_insert cmp x ys)"

definition Array_sort :: "('a \<Rightarrow> 'a \<Rightarrow> number) \<Rightarrow> 'a list \<Rightarrow> 'a list" where
  "Array_sort cmp xs = foldr (sort_insert cmp) xs []"

section \<open>The registry\<close>

text \<open>
  \<open>interface ShortcutEntry\<close>. The action is a reference \<open>'f\<close> to a callback of the
  registering caller; what calling it does is given by a parameter \<open>call\<close> of the
  operations that invoke actions. Parameters and local variables that share a name with
  a field carry a prime.
\<close>

record 'f ShortcutEntry =
  name :: string
  keyCombo :: string
  description :: string
  action :: 'f
  category :: string
  enabled :: "bool option"
  order :: "number option"

text \<open>
  The outcome of running JavaScript code: it returns a value or throws an exception.
\<close>

datatype ('r, 'e) completion = Return 'r | Throw 'e

text \<open>
  The state of the module: the map \<open>shortcutsRegistry\<close>, the two data fields of the
  store (\<open>version\<close>, \<open>shortcuts\<close>), the variable \<open>updateTimer\<close>; and of its host: the
  timeouts that are pending (every timeout this module sets runs \<open>updateRegistry\<close>),
  the last timer identifier handed out, the lines written with \<open>console.error\<close>, and
  the state \<open>app\<close> of the application the callbacks belong to. A callback is called with
  the whole state, since it may itself call the operations of the registry.
\<close>

record ('f, 'e, 'w) state =
  shortcutsRegistry :: "(string, (string, 'f ShortcutEntry) Map) Map"
  version :: int
  shortcuts :: "'f ShortcutEntry list Object"
  updateTimer :: "nat option"
  timers :: "nat list"
  timerSeq :: nat
  console :: "(string \<times> 'e) list"
  app :: 'w

type_synonym ('f, 'e, 'w) call =
  "'f \<Rightarrow> ('f, 'e, 'w) state \<Rightarrow> (unit, 'e) completion \<times> ('f, 'e, 'w) state"

definition DEFAULT_SHORTCUT_CATEGORIES :: "string Object" where
  "DEFAULT_SHORTCUT_CATEGORIES =
     \<lparr>own = [(''NAVIGATION'', ''navigation''), (''VIEW_SETTINGS'', ''viewSettings''),
             (''TOOLS'', ''tools''), (''EDITING'', ''editing''), (''CUSTOM'', ''custom'')],
      proto = None\<rparr>"

definition initial_state :: "'w \<Rightarrow> ('f, 'e, 'w) state" where
  "initial_state w =
     \<lparr>shortcutsRegistry = [], version = 0,
      shortcuts =
        \<lparr>own = [(''navigation'', []), (''viewSettings'', []), (''tools'', []),
                (''editing'', []), (''custom'', [])],
         proto = None\<rparr>,
      updateTimer = None, timers = [], timerSeq = 0, console = [], app = w\<rparr>"

definition incrementVersion :: "('f, 'e, 'w) state \<Rightarrow> ('f, 'e, 'w) state" where
  "incrementVersion st = st\<lparr>version := version st + 1\<rparr>"

definition setShortcuts ::
  "'f ShortcutEntry list Object \<Rightarrow> ('f, 'e, 'w) state \<Rightarrow> ('f, 'e, 'w) state" where
  "setShortcuts s st = st\<lparr>shortcuts := s\<rparr>"

definition console_error :: "string \<Rightarrow> 'e \<Rightarrow> ('f, 'e, 'w) state \<Rightarrow> ('f, 'e, 'w) state" where
  "console_error msg err st = st\<lparr>console := console st @ [(msg, err)]\<rparr>"

definition initRegistry :: "string \<Rightarrow> ('f, 'e, 'w) state \<Rightarrow> ('f, 'e, 'w) state" where
  "initRegistry category' st =
     (if \<not> Map_has (shortcutsRegistry st) category'
      then st\<lparr>shortcutsRegistry := Map_set category' [] (shortcutsRegistry st)\<rparr>
      else st)"

definition MAX_SAFE_INTEGER :: number where
  "MAX_SAFE_INTEGER = Finite 9007199254740991"

text \<open>
  The comparison function \<open>(a, b) => ...\<close> that the three sorts of the module share;
  \<open>orderOrMax x\<close> is its \<open>x.order ?? Number.MAX_SAFE_INTEGER\<close>.
\<close>

definition orderOrMax :: "'f ShortcutEntry \<Rightarrow> number" where
  "orderOrMax x = (case order x of None \<Rightarrow> MAX_SAFE_INTEGER | Some v \<Rightarrow> v)"

definition compareOrder :: "'f ShortcutEntry \<Rightarrow> 'f ShortcutEntry \<Rightarrow> number" where
  "compareOrder a b =
     (let orderA = orderOrMax a;
          orderB = orderOrMax b
      in number_minus orderA orderB)"

text \<open>The callback of \<open>shortcutsRegistry.forEach\<close> in \<open>updateRegistry\<close>.\<close>

definition updateCategory ::
  "'f ShortcutEntry list Object \<Rightarrow> string \<times> (string, 'f ShortcutEntry) Map \<Rightarrow>
   'f ShortcutEntry list Object" where
  "updateCategory shortcutsState ce =
     (let category' = fst ce; entryMap = snd ce;
          shortcutsState =
            (if \<not> ToBoolean (get_property shortcutsState category')
             then set_property shortcutsState category' [] else shortcutsState);
          entries = Map_values entryMap;
          sortedEntries = Array_sort compareOrder entries
      in set_property shortcutsState category' sortedEntries)"

definition updateRegistry :: "('f, 'e, 'w) state \<Rightarrow> ('f, 'e, 'w) state" where
  "updateRegistry st =
     (let shortcutsState =
            foldl (\<lambda>s category'. set_property s category' []) \<lparr>own = [], proto = None\<rparr>
              (Object_values DEFAULT_SHORTCUT_CATEGORIES);
          shortcutsState = foldl updateCategory shortcutsState (shortcutsRegistry st)
      in incrementVersion (setShortcuts shortcutsState st))"

text \<open>
  \<open>window.setTimeout\<close> hands out the next identifier and \<open>clearTimeout\<close> cancels a
  pending timeout. \<open>timerFires\<close> is the host running a timeout that is still pending.
\<close>

definition clearTimeout :: "nat \<Rightarrow> ('f, 'e, 'w) state \<Rightarrow> ('f, 'e, 'w) state" where
  "clearTimeout t st = st\<lparr>timers := removeAll t (timers st)\<rparr>"

definition setTimeout :: "('f, 'e, 'w) state \<Rightarrow> nat \<times> ('f, 'e, 'w) state" where
  "setTimeout st =
     (let t = Suc (timerSeq st) in (t, st\<lparr>timerSeq := t, timers := timers st @ [t]\<rparr>))"

definition debouncedUpdateRegistry :: "('f, 'e, 'w) state \<Rightarrow> ('f, 'e, 'w) state" where
  "debouncedUpdateRegistry st =
     (let st = (case updateTimer st of
                  None \<Rightarrow> st
                | Some t \<Rightarrow> if t \<noteq> 0 then clearTimeout t st else st);
          r = setTimeout st
      in (snd r)\<lparr>updateTimer := Some (fst r)\<rparr>)"

definition timerFires :: "nat \<Rightarrow> ('f, 'e, 'w) state \<Rightarrow> ('f, 'e, 'w) state" where
  "timerFires t st =
     (if t \<in> set (timers st) then updateRegistry (clearTimeout t st) else st)"

definition registerShortcut ::
  "string \<Rightarrow> string \<Rightarrow> string \<Rightarrow> 'f \<Rightarrow> string \<Rightarrow> bool option \<Rightarrow> number option \<Rightarrow>
   ('f, 'e, 'w) state \<Rightarrow> ('f, 'e, 'w) state" where
  "registerShortcut category' name' keyCombo' action' description' enabled' order' st =
     (let st = initRegistry category' st;
          registry = (case Map_get (shortcutsRegistry st) category' of
                        None \<Rightarrow> [] | Some m \<Rightarrow> m);
          shortcutEntry =
            \<lparr>name = name', keyCombo = keyCombo', description = description',
             action = action', category = category',
             enabled = Some (case enabled' of None \<Rightarrow> True | Some b \<Rightarrow> b),
             order = order'\<rparr>;
          st = st\<lparr>shortcutsRegistry :=
                    Map_set category' (Map_set name' shortcutEntry registry)
                      (shortcutsRegistry st)\<rparr>
      in debouncedUpdateRegistry st)"

definition unregisterShortcut ::
  "string \<Rightarrow> string \<Rightarrow> ('f, 'e, 'w) state \<Rightarrow> ('f, 'e, 'w) state" where
  "unregisterShortcut category' name' st =
     (case Map_get (shortcutsRegistry st) category' of
        None \<Rightarrow> st
      | Some registry \<Rightarrow>
          (let deleted = Map_has registry name';
               registry = Map_delete name' registry;
               st = st\<lparr>shortcutsRegistry :=
                         Map_set category' registry (shortcutsRegistry st)\<rparr>;
               st = (if Map_size registry = 0
                     then st\<lparr>shortcutsRegistry :=
                               Map_delete category' (shortcutsRegistry st)\<rparr>
                     else st)
           in if deleted then debouncedUpdateRegistry st else st))"

text \<open>
  \<open>storeState.shortcuts[category] || []\<close>: the value read, which need not be an array of
  entries when the name is inherited, or the empty array when that value is false.
\<close>

definition getShortcuts ::
  "string \<Rightarrow> ('f, 'e, 'w) state \<Rightarrow> 'f ShortcutEntry property" where
  "getShortcuts category' st =
     (let v = get_property (shortcuts st) category'
      in if ToBoolean v then v else ArrayValue [])"

definition getShortcutCategories :: "('f, 'e, 'w) state \<Rightarrow> string list" where
  "getShortcutCategories st =
     map fst (filter (\<lambda>p. length (snd p) > 0) (Object_entries (shortcuts st)))"

definition getAllShortcuts :: "('f, 'e, 'w) state \<Rightarrow> 'f ShortcutEntry list" where
  "getAllShortcuts st =
     (let allShortcuts = concat (Object_values (shortcuts st))
      in Array_sort compareOrder allShortcuts)"

definition clearShortcuts :: "string \<Rightarrow> ('f, 'e, 'w) state \<Rightarrow> ('f, 'e, 'w) state" where
  "clearShortcuts category' st =
     (if Map_has (shortcutsRegistry st) category'
      then debouncedUpdateRegistry
             (st\<lparr>shortcutsRegistry := Map_delete category' (shortcutsRegistry st)\<rparr>)
      else st)"

definition hasShortcut :: "string \<Rightarrow> string \<Rightarrow> ('f, 'e, 'w) state \<Rightarrow> bool" where
  "hasShortcut category' name' st =
     (case Map_get (shortcutsRegistry st) category' of
        None \<Rightarrow> False
      | Some registry \<Rightarrow> Map_has registry name')"

definition executeShortcut ::
  "('f, 'e, 'w) call \<Rightarrow> string \<Rightarrow> string \<Rightarrow> ('f, 'e, 'w) state \<Rightarrow>
   (bool, 'e) completion \<times> ('f, 'e, 'w) state" where
  "executeShortcut call category' name' st =
     (case Map_get (shortcutsRegistry st) category' of
        None \<Rightarrow> (Return False, st)
      | Some registry \<Rightarrow>
          (case Map_get registry name' of
             None \<Rightarrow> (Return False, st)
           | Some shortcut \<Rightarrow>
               if \<not> truthy (enabled shortcut) then (Return False, st)
               else (case call (action shortcut) st of
                       (Return u, st') \<Rightarrow> (Return True, st')
                     | (Throw error, st') \<Rightarrow>
                         (Return False,
                          console_error
                            (''Error executing shortcut '' @ category' @ '':'' @ name' @ '':'')
                            error st'))))"

section \<open>The key-press handler\<close>

text \<open>\<open>getAllShortcuts\<close> of the object that \<open>useShortcutsRegistry\<close> returns.\<close>

definition hook_getAllShortcuts :: "'f ShortcutEntry list Object \<Rightarrow> 'f ShortcutEntry list" where
  "hook_getAllShortcuts cachedShortcuts =
     (let allShortcuts = concat (Object_values cachedShortcuts)
      in Array_sort compareOrder allShortcuts)"

text \<open>
  The condition of the first \<open>if\<close> of \<open>handleKeyDown\<close>. The property \<open>contentEditable\<close>
  of an element is \<open>'true'\<close>, \<open>'false'\<close>, \<open>'plaintext-only'\<close> or \<open>'inherit'\<close>.
\<close>

definition is_text_entry :: "event_target \<Rightarrow> bool" where
  "is_text_entry t =
     (instance_of t = HTMLInputElement \<or> instance_of t = HTMLTextAreaElement \<or>
      instance_of t = HTMLSelectElement \<or> contentEditable t = Some ''true'')"

definition preventDefault :: "KeyboardEvent \<Rightarrow> KeyboardEvent" where
  "preventDefault event = event\<lparr>defaultPrevented := True\<rparr>"

definition stopPropagation :: "KeyboardEvent \<Rightarrow> KeyboardEvent" where
  "stopPropagation event = event\<lparr>propagationStopped := True\<rparr>"

text \<open>The \<open>for\<close> loop of \<open>handleKeyDown\<close>; \<open>break\<close> is the branch without a recursive call.\<close>

fun scanShortcuts ::
  "('f, 'e, 'w) call \<Rightarrow> 'f ShortcutEntry list \<Rightarrow> KeyboardEvent \<Rightarrow> ('f, 'e, 'w) state \<Rightarrow>
   (unit, 'e) completion \<times> KeyboardEvent \<times> ('f, 'e, 'w) state" where
  "scanShortcuts call [] event st = (Return (), event, st)"
| "scanShortcuts call (shortcut # rest) event st =
     (if truthy (enabled shortcut) \<and> matchesKeyCombo event (keyCombo shortcut)
      then (let event = stopPropagation (preventDefault event)
            in case call (action shortcut) st of
                 (Return u, st') \<Rightarrow> (Return (), event, st')
               | (Throw error, st') \<Rightarrow>
                   (Return (), event,
                    console_error (''Error executing shortcut '' @ name shortcut @ '':'')
                      error st'))
      else scanShortcuts call rest event st)"

definition handleKeyDown ::
  "('f, 'e, 'w) call \<Rightarrow> 'f ShortcutEntry list Object \<Rightarrow> KeyboardEvent \<Rightarrow>
   ('f, 'e, 'w) state \<Rightarrow> (unit, 'e) completion \<times> KeyboardEvent \<times> ('f, 'e, 'w) state" where
  "handleKeyDown call cachedShortcuts event st =
     (if is_text_entry (ev_target event) then (Return (), event, st)
      else (let allShortcuts = hook_getAllShortcuts cachedShortcuts
            in scanShortcuts call allShortcuts event st))"

section \<open>The parser and the matcher as the specification words them\<close>

text \<open>
  The specification describes \<open>parseKeyCombo\<close> by its result: the combination string is
  split on \<open>+\<close>, every token is trimmed and lower-cased, the modifier tokens set their
  flags, and the last token that is not a modifier is the base key. \<open>join_plus\<close> is
  \<open>tokens.join('+')\<close>: it builds a combination string from its tokens.
\<close>

fun join_plus :: "string list \<Rightarrow> string" where
  "join_plus [] = []"
| "join_plus [t] = t"
| "join_plus (t # u # ts) = t @ CHR ''+'' # join_plus (u # ts)"

definition is_modifier_token :: "string \<Rightarrow> bool" where
  "is_modifier_token t =
     (t = ''ctrl'' \<or> t = ''control'' \<or> t = ''shift'' \<or> t = ''alt'' \<or> t = ''cmd'' \<or> t = ''meta'')"

definition tokens_spec :: "string \<Rightarrow> string list" where
  "tokens_spec s = map (\<lambda>p. toLowerCase (trim p)) (split CHR ''+'' s)"

definition parseKeyCombo_spec :: "string \<Rightarrow> KeyCombination" where
  "parseKeyCombo_spec s =
     (let ts = tokens_spec s;
          keys = filter (\<lambda>t. \<not> is_modifier_token t) ts
      in \<lparr>key = (if keys = [] then '''' else last keys),
          ctrlKey = (if ''ctrl'' \<in> set ts \<or> ''control'' \<in> set ts then Some True else None),
          shiftKey = (if ''shift'' \<in> set ts then Some True else None),
          altKey = (if ''alt'' \<in> set ts then Some True else None),
          metaKey = (if ''cmd'' \<in> set ts \<or> ''meta'' \<in> set ts then Some True else None)\<rparr>)"

section \<open>Example callers and states\<close>

text \<open>
  Callbacks for the examples: \<open>Note s\<close> appends \<open>s\<close> to the application's log and
  returns, \<open>Fail s\<close> appends \<open>s\<close> and throws \<open>s\<close>, and \<open>Drop c n\<close> calls
  \<open>unregisterShortcut(c, n)\<close> and then throws.
\<close>

datatype ex_action = Note string | Fail string | Drop string string

fun ex_call :: "(ex_action, string, string list) call" where
  "ex_call (Note s) st = (Return (), st\<lparr>app := app st @ [s]\<rparr>)"
| "ex_call (Fail s) st = (Throw s, st\<lparr>app := app st @ [s]\<rparr>)"
| "ex_call (Drop c n) st = (Throw ''dropped'', unregisterShortcut c n st)"

text \<open>\<open>new KeyboardEvent('keydown', {key: k})\<close>, dispatched at the document.\<close>

definition keydown :: "string \<Rightarrow> KeyboardEvent" where
  "keydown k =
     \<lparr>ev_key = k, ev_code = '''', ev_ctrlKey = False, ev_shiftKey = False,
      ev_altKey = False, ev_metaKey = False,
      ev_target = \<lparr>instance_of = OtherTarget, contentEditable = None\<rparr>,
      defaultPrevented = False, propagationStopped = False\<rparr>"

text \<open>
  Two categories bind \<open>Ctrl+A\<close>, as in the conflict test of the integration tests; the
  timeout of the second registration has run.
\<close>

definition ex_conflict :: "(ex_action, string, string list) state" where
  "ex_conflict =
     timerFires 2
       (registerShortcut ''category2'' ''action2'' ''Ctrl+A'' (Note ''action2'')
          ''Second action'' None None
          (registerShortcut ''category1'' ''action1'' ''Ctrl+A'' (Note ''action1'')
             ''First action'' None None (initial_state [])))"

text \<open>
  One category with an entry whose action returns, one whose action throws and one that
  is disabled; the timeout of the last registration has run.
\<close>

definition ex_mixed :: "(ex_action, string, string list) state" where
  "ex_mixed =
     timerFires 3
       (registerShortcut ''tools'' ''off'' ''Ctrl+D'' (Note ''off'') ''Disabled shortcut''
          (Some False) None
          (registerShortcut ''tools'' ''boom'' ''Ctrl+B'' (Fail ''boom'') ''Throws'' None None
             (registerShortcut ''tools'' ''ok'' ''Ctrl+K'' (Note ''ok'') ''Returns'' None None
                (initial_state []))))"

text \<open>
  The scenario of the specification: \<open>("nav", "next")\<close> and then \<open>("edit", "del")\<close> are
  registered, both without an order; \<open>ex_two_registered\<close> is the state right after the two
  calls, \<open>ex_two_categories\<close> the state once the pending timeout has run.
\<close>

definition ex_two_registered :: "(ex_action, string, string list) state" where
  "ex_two_registered =
     registerShortcut ''edit'' ''del'' ''Delete'' (Note ''del'') ''desc'' None None
       (registerShortcut ''nav'' ''next'' ''ArrowDown'' (Note ''next'') ''desc'' None None
          (initial_state []))"

definition ex_two_categories :: "(ex_action, string, string list) state" where
  "ex_two_categories = timerFires 2 ex_two_registered"

text \<open>
  An entry without an order is registered, then an entry whose order is \<open>2 ^ 53\<close>, one
  above \<open>Number.MAX_SAFE_INTEGER\<close>; the pending timeout has run.
\<close>

definition ex_large_order :: "(ex_action, string, string list) state" where
  "ex_large_order =
     timerFires 2
       (registerShortcut ''tools'' ''zoom'' ''Ctrl+Z'' (Note ''zoom'') ''Zoom'' None
          (Some (Finite 9007199254740992))
          (registerShortcut ''tools'' ''grid'' ''Ctrl+G'' (Note ''grid'') ''Toggle grid'' None
             None (initial_state [])))"

text \<open>
  Three entries in two categories: order 20, no order, and order 5 in a category that is
  registered last; the pending timeout has run.
\<close>

definition ex_ordered :: "(ex_action, string, string list) state" where
  "ex_ordered =
     timerFires 3
       (registerShortcut ''view'' ''fit'' ''Ctrl+F'' (Note ''fit'') ''Fit view'' None
          (Some (Finite 5))
          (registerShortcut ''tools'' ''grid'' ''Ctrl+G'' (Note ''grid'') ''Toggle grid'' None
             None
             (registerShortcut ''tools'' ''zoom'' ''Ctrl+Z'' (Note ''zoom'') ''Zoom'' None
                (Some (Finite 20)) (initial_state []))))"

text \<open>
  Categories whose names are array indices: \<open>"10"\<close>, then \<open>"2"\<close>, then \<open>"01"\<close> (not an
  array index) are registered; the snapshot has been recomputed.
\<close>

definition ex_numeric :: "(ex_action, string, string list) state" where
  "ex_numeric =
     timerFires 3
       (registerShortcut ''01'' ''third'' ''Ctrl+3'' (Note ''third'') ''Third'' None None
          (registerShortcut ''2'' ''second'' ''Ctrl+2'' (Note ''second'') ''Second'' None None
             (registerShortcut ''10'' ''first'' ''Ctrl+1'' (Note ''first'') ''First'' None
                None (initial_state []))))"

text \<open>
  Two entries bind \<open>Ctrl+A\<close>: the one registered first has order 7, the one registered
  second, in another category, has order 3; the pending timeout has run.
\<close>

definition ex_by_order :: "(ex_action, string, string list) state" where
  "ex_by_order =
     timerFires 2
       (registerShortcut ''view'' ''early'' ''Ctrl+A'' (Note ''early'') ''Order 3'' None
          (Some (Finite 3))
          (registerShortcut ''tools'' ''late'' ''Ctrl+A'' (Note ''late'') ''Order 7'' None
             (Some (Finite 7)) (initial_state [])))"

text \<open>
  Three entries of one category bind \<open>Ctrl+A\<close>, with the orders 2, \<open>NaN\<close> and 1 in the
  sequence of their registration; the pending timeout has run.
\<close>

definition ex_nan :: "(ex_action, string, string list) state" where
  "ex_nan =
     timerFires 3
       (registerShortcut ''tools'' ''one'' ''Ctrl+A'' (Note ''one'') ''Order 1'' None
          (Some (Finite 1))
          (registerShortcut ''tools'' ''nan'' ''Ctrl+A'' (Note ''nan'') ''Order NaN'' None
             (Some NaN)
             (registerShortcut ''tools'' ''two'' ''Ctrl+A'' (Note ''two'') ''Order 2'' None
                (Some (Finite 2)) (initial_state []))))"

text \<open>
  An entry is registered in a category named \<open>__proto__\<close>; the pending timeout has run.
\<close>

definition ex_proto :: "(ex_action, string, string list) state" where
  "ex_proto =
     timerFires 1
       (registerShortcut ''__proto__'' ''hidden'' ''Ctrl+H'' (Note ''hidden'') ''Hidden'' None
          None (initial_state []))"

text \<open>
  An enabled entry whose action unregisters the entry itself and then throws; the pending
  timeout has run.
\<close>

definition ex_reentrant :: "(ex_action, string, string list) state" where
  "ex_reentrant =
     timerFires 2
       (registerShortcut ''tools'' ''keep'' ''Ctrl+K'' (Note ''keep'') ''Stays'' None None
          (registerShortcut ''tools'' ''self'' ''Ctrl+S'' (Drop ''tools'' ''self'')
             ''Removes itself'' None None (initial_state [])))"

text \<open>
  The key press \<open>Ctrl+A\<close> in an element whose \<open>contentEditable\<close> property is
  \<open>'plaintext-only'\<close>: a text-entry element that is neither an input, a textarea nor a
  select.
\<close>

definition ex_plaintext_keydown :: KeyboardEvent where
  "ex_plaintext_keydown =
     (keydown ''a'')
       \<lparr>ev_ctrlKey := True,
        ev_target := \<lparr>instance_of = OtherTarget, contentEditable = Some ''plaintext-only''\<rparr>\<rparr>"

section \<open>Parsing a key combination\<close>

lemma of_char_lower_char:
  "(of_char (lower_char c) :: nat) =
     (if 65 \<le> (of_char c :: nat) \<and> (of_char c :: nat) \<le> 90 then of_char c + 32 else of_char c)"
  by (simp add: lower_char_def Let_def)

lemma is_space_lower_char [simp]: "is_space (lower_char c) = is_space c"
  by (auto simp: is_space_def Let_def of_char_lower_char)

lemma of_char_plus: "((of_char c :: nat) = 43) = (c = CHR ''+'')"
proof
  assume "(of_char c :: nat) = 43"
  then have "char_of (of_char c :: nat) = char_of (43 :: nat)" by simp
  moreover have "char_of (43 :: nat) = CHR ''+''" by code_simp
  ultimately show "c = CHR ''+''" by simp
qed simp

lemma lower_char_plus [simp]: "(lower_char c = CHR ''+'') = (c = CHR ''+'')"
proof -
  have "(lower_char c = CHR ''+'') = ((of_char (lower_char c) :: nat) = 43)"
    by (simp add: of_char_plus)
  also have "\<dots> = ((of_char c :: nat) = 43)"
    by (auto simp: of_char_lower_char)
  finally show ?thesis by (simp add: of_char_plus)
qed

lemma split_nonempty [simp]: "split sep s \<noteq> []"
  by (induction s) (auto split: list.splits)

lemma split_map:
  assumes "\<And>c. (f c = sep) = (c = sep)"
  shows "split sep (map f s) = map (map f) (split sep s)"
  by (induction s) (auto simp: assms split: list.splits)

lemma split_toLowerCase:
  "split CHR ''+'' (toLowerCase s) = map toLowerCase (split CHR ''+'' s)"
  unfolding toLowerCase_def by (rule split_map) simp

lemma trim_toLowerCase: "trim (toLowerCase p) = toLowerCase (trim p)"
  by (simp add: trim_def toLowerCase_def dropWhile_map rev_map comp_def)

lemma key_foldl:
  "key (foldl parse_part r ts) =
     (let ks = filter (\<lambda>t. \<not> is_modifier_token t) (map trim ts)
      in if ks = [] then key r else last ks)"
  by (induction ts rule: rev_induct) (auto simp: parse_part_def Let_def is_modifier_token_def)

lemma ctrlKey_foldl:
  "ctrlKey (foldl parse_part r ts) =
     (if ''ctrl'' \<in> set (map trim ts) \<or> ''control'' \<in> set (map trim ts) then Some True
      else ctrlKey r)"
  by (induction ts rule: rev_induct) (auto simp: parse_part_def Let_def)

lemma shiftKey_foldl:
  "shiftKey (foldl parse_part r ts) =
     (if ''shift'' \<in> set (map trim ts) then Some True else shiftKey r)"
  by (induction ts rule: rev_induct) (auto simp: parse_part_def Let_def)

lemma altKey_foldl:
  "altKey (foldl parse_part r ts) =
     (if ''alt'' \<in> set (map trim ts) then Some True else altKey r)"
  by (induction ts rule: rev_induct) (auto simp: parse_part_def Let_def)

lemma metaKey_foldl:
  "metaKey (foldl parse_part r ts) =
     (if ''cmd'' \<in> set (map trim ts) \<or> ''meta'' \<in> set (map trim ts) then Some True
      else metaKey r)"
  by (induction ts rule: rev_induct) (auto simp: parse_part_def Let_def)

lemma trimmed_parts: "map trim (split CHR ''+'' (toLowerCase s)) = tokens_spec s"
  by (simp add: split_toLowerCase tokens_spec_def trim_toLowerCase)

lemma parseKeyCombo_eq_spec: "parseKeyCombo s = parseKeyCombo_spec s"
proof (rule KeyCombination.equality)
  show "key (parseKeyCombo s) = key (parseKeyCombo_spec s)"
    by (simp add: parseKeyCombo_def parseKeyCombo_spec_def key_foldl trimmed_parts Let_def)
  show "ctrlKey (parseKeyCombo s) = ctrlKey (parseKeyCombo_spec s)"
    by (simp add: parseKeyCombo_def parseKeyCombo_spec_def ctrlKey_foldl trimmed_parts Let_def
        del: set_map)
  show "shiftKey (parseKeyCombo s) = shiftKey (parseKeyCombo_spec s)"
    by (simp add: parseKeyCombo_def parseKeyCombo_spec_def shiftKey_foldl trimmed_parts Let_def
        del: set_map)
  show "altKey (parseKeyCombo s) = altKey (parseKeyCombo_spec s)"
    by (simp add: parseKeyCombo_def parseKeyCombo_spec_def altKey_foldl trimmed_parts Let_def
        del: set_map)
  show "metaKey (parseKeyCombo s) = metaKey (parseKeyCombo_spec s)"
    by (simp add: parseKeyCombo_def parseKeyCombo_spec_def metaKey_foldl trimmed_parts Let_def
        del: set_map)
qed simp

text \<open>
  Claim C5. For every string, \<open>parseKeyCombo\<close> returns (it has no failing branch) the
  combination that the specification describes: split on \<open>+\<close>, each token trimmed and
  lower-cased, \<open>ctrl\<close>/\<open>control\<close>, \<open>shift\<close>, \<open>alt\<close> and \<open>cmd\<close>/\<open>meta\<close> setting
  their flags, and the base key the last token that is not a modifier, whatever that token
  is (the empty string when there is none).
\<close>

theorem parseKeyCombo_refines_spec: "parseKeyCombo s = parseKeyCombo_spec s"
  by (rule parseKeyCombo_eq_spec)

theorem parseKeyCombo_refines_spec_witness:
  "parseKeyCombo '' Ctrl + Foo!+shift+#BAR+cmd'' =
     \<lparr>key = ''#bar'', ctrlKey = Some True, shiftKey = Some True, altKey = None,
      metaKey = Some True\<rparr>"
proof -
  have "parseKeyCombo_spec '' Ctrl + Foo!+shift+#BAR+cmd'' =
     \<lparr>key = ''#bar'', ctrlKey = Some True, shiftKey = Some True, altKey = None,
      metaKey = Some True\<rparr>"
    by code_simp
  then show ?thesis
    by (simp only: parseKeyCombo_refines_spec)
qed

section \<open>Matching an event\<close>

lemma parse_examples:
  "parseKeyCombo ''Ctrl+A'' =
     \<lparr>key = ''a'', ctrlKey = Some True, shiftKey = None, altKey = None, metaKey = None\<rparr>"
  "parseKeyCombo ''Shift+A'' =
     \<lparr>key = ''a'', ctrlKey = None, shiftKey = Some True, altKey = None, metaKey = None\<rparr>"
  "parseKeyCombo ''Cmd+D'' =
     \<lparr>key = ''d'', ctrlKey = None, shiftKey = None, altKey = None, metaKey = Some True\<rparr>"
  "parseKeyCombo ''Space'' =
     \<lparr>key = ''space'', ctrlKey = None, shiftKey = None, altKey = None, metaKey = None\<rparr>"
  "parseKeyCombo ''Esc'' =
     \<lparr>key = ''esc'', ctrlKey = None, shiftKey = None, altKey = None, metaKey = None\<rparr>"
  by code_simp+

lemma normalizeKey_examples:
  "normalizeKey ''a'' = ''a''" "normalizeKey ''d'' = ''d''" "normalizeKey '' '' = ''space''"
  "normalizeKey ''Escape'' = ''esc''"
  by code_simp+

lemma matchesKeyCombo_modifiers:
  assumes "matchesKeyCombo e s"
  shows "(ev_ctrlKey e \<or> ev_metaKey e) = truthy (ctrlKey (parseKeyCombo s))"
    and "ev_shiftKey e = truthy (shiftKey (parseKeyCombo s))"
    and "ev_altKey e = truthy (altKey (parseKeyCombo s))"
  using assms by (auto simp: matchesKeyCombo_def Let_def)

text \<open>
  Claim C2. A match needs the modifiers to be exactly those of the combination: the
  event's ctrl-or-meta state equals the combination's ctrl flag, and its shift and alt
  states equal the shift and alt flags. So a press of \<open>a\<close> with ctrl alone, or with meta
  alone, matches \<open>Ctrl+A\<close>; with ctrl alone it does not match \<open>Shift+A\<close>; a press with
  ctrl (or meta) and shift does not match \<open>Ctrl+A\<close>; and a combination that asks for no
  modifier is matched only by an event with no modifier pressed.
\<close>

theorem matchesKeyCombo_exact_modifiers:
  "(matchesKeyCombo e s \<longrightarrow>
      (ev_ctrlKey e \<or> ev_metaKey e) = truthy (ctrlKey (parseKeyCombo s)) \<and>
      ev_shiftKey e = truthy (shiftKey (parseKeyCombo s)) \<and>
      ev_altKey e = truthy (altKey (parseKeyCombo s))) \<and>
   (ev_key e = ''a'' \<and> ev_ctrlKey e \<and> \<not> ev_metaKey e \<and> \<not> ev_shiftKey e \<and> \<not> ev_altKey e \<longrightarrow>
      matchesKeyCombo e ''Ctrl+A'' \<and> \<not> matchesKeyCombo e ''Shift+A'') \<and>
   (ev_key e = ''a'' \<and> \<not> ev_ctrlKey e \<and> ev_metaKey e \<and> \<not> ev_shiftKey e \<and> \<not> ev_altKey e \<longrightarrow>
      matchesKeyCombo e ''Ctrl+A'') \<and>
   ((ev_ctrlKey e \<or> ev_metaKey e) \<and> ev_shiftKey e \<longrightarrow> \<not> matchesKeyCombo e ''Ctrl+A'') \<and>
   (\<not> truthy (ctrlKey (parseKeyCombo s)) \<and> \<not> truthy (shiftKey (parseKeyCombo s)) \<and>
    \<not> truthy (altKey (parseKeyCombo s)) \<and> \<not> truthy (metaKey (parseKeyCombo s)) \<and>
    matchesKeyCombo e s \<longrightarrow>
      \<not> ev_ctrlKey e \<and> \<not> ev_metaKey e \<and> \<not> ev_shiftKey e \<and> \<not> ev_altKey e)"
proof (intro conjI impI; (elim conjE)?)
  show "(ev_ctrlKey e \<or> ev_metaKey e) = truthy (ctrlKey (parseKeyCombo s))"
    "ev_shiftKey e = truthy (shiftKey (parseKeyCombo s))"
    "ev_altKey e = truthy (altKey (parseKeyCombo s))"
    if "matchesKeyCombo e s"
    using that by (rule matchesKeyCombo_modifiers)+
  show "matchesKeyCombo e ''Ctrl+A''" "\<not> matchesKeyCombo e ''Shift+A''"
    if "ev_key e = ''a''" "ev_ctrlKey e" "\<not> ev_metaKey e" "\<not> ev_shiftKey e" "\<not> ev_altKey e"
    using that
    by (simp_all add: matchesKeyCombo_def parse_examples normalizeKey_examples truthy_def)
  show "matchesKeyCombo e ''Ctrl+A''"
    if "ev_key e = ''a''" "\<not> ev_ctrlKey e" "ev_metaKey e" "\<not> ev_shiftKey e" "\<not> ev_altKey e"
    using that
    by (simp add: matchesKeyCombo_def parse_examples normalizeKey_examples truthy_def)
  show "\<not> matchesKeyCombo e ''Ctrl+A''" if "ev_ctrlKey e \<or> ev_metaKey e" "ev_shiftKey e"
    using that by (simp add: matchesKeyCombo_def parse_examples truthy_def)
  show "\<not> ev_ctrlKey e" "\<not> ev_metaKey e" "\<not> ev_shiftKey e" "\<not> ev_altKey e"
    if "\<not> truthy (ctrlKey (parseKeyCombo s))" "\<not> truthy (shiftKey (parseKeyCombo s))"
      "\<not> truthy (altKey (parseKeyCombo s))" "matchesKeyCombo e s"
    using that by (auto simp: matchesKeyCombo_def Let_def)
qed

theorem matchesKeyCombo_exact_modifiers_witness:
  "matchesKeyCombo ((keydown ''a'')\<lparr>ev_ctrlKey := True\<rparr>) ''Ctrl+A'' \<and>
   \<not> matchesKeyCombo ((keydown ''a'')\<lparr>ev_ctrlKey := True\<rparr>) ''Shift+A'' \<and>
   truthy (ctrlKey (parseKeyCombo ''Ctrl+A'')) \<and>
   \<not> truthy (shiftKey (parseKeyCombo ''Ctrl+A'')) \<and>
   \<not> truthy (altKey (parseKeyCombo ''Ctrl+A'')) \<and>
   matchesKeyCombo ((keydown ''a'')\<lparr>ev_metaKey := True\<rparr>) ''Ctrl+A'' \<and>
   \<not> matchesKeyCombo ((keydown ''a'')\<lparr>ev_ctrlKey := True, ev_shiftKey := True\<rparr>) ''Ctrl+A''"
proof -
  let ?ctrl = "(keydown ''a'')\<lparr>ev_ctrlKey := True\<rparr>"
  let ?meta = "(keydown ''a'')\<lparr>ev_metaKey := True\<rparr>"
  let ?both = "(keydown ''a'')\<lparr>ev_ctrlKey := True, ev_shiftKey := True\<rparr>"
  have ctrl: "ev_key ?ctrl = ''a'' \<and> ev_ctrlKey ?ctrl \<and> \<not> ev_metaKey ?ctrl \<and>
      \<not> ev_shiftKey ?ctrl \<and> \<not> ev_altKey ?ctrl"
    by (simp add: keydown_def)
  have meta: "ev_key ?meta = ''a'' \<and> \<not> ev_ctrlKey ?meta \<and> ev_metaKey ?meta \<and>
      \<not> ev_shiftKey ?meta \<and> \<not> ev_altKey ?meta"
    by (simp add: keydown_def)
  have both: "(ev_ctrlKey ?both \<or> ev_metaKey ?both) \<and> ev_shiftKey ?both"
    by (simp add: keydown_def)
  from matchesKeyCombo_exact_modifiers [of ?ctrl "''Ctrl+A''"] ctrl
  have 1: "matchesKeyCombo ?ctrl ''Ctrl+A''" "\<not> matchesKeyCombo ?ctrl ''Shift+A''"
    by blast+
  from matchesKeyCombo_exact_modifiers [of ?ctrl "''Ctrl+A''"] 1(1)
  have "(ev_ctrlKey ?ctrl \<or> ev_metaKey ?ctrl) = truthy (ctrlKey (parseKeyCombo ''Ctrl+A''))"
    "ev_shiftKey ?ctrl = truthy (shiftKey (parseKeyCombo ''Ctrl+A''))"
    "ev_altKey ?ctrl = truthy (altKey (parseKeyCombo ''Ctrl+A''))"
    by blast+
  with ctrl have 2: "truthy (ctrlKey (parseKeyCombo ''Ctrl+A''))"
    "\<not> truthy (shiftKey (parseKeyCombo ''Ctrl+A''))"
    "\<not> truthy (altKey (parseKeyCombo ''Ctrl+A''))"
    by blast+
  from matchesKeyCombo_exact_modifiers [of ?meta "''Ctrl+A''"] meta
  have 3: "matchesKeyCombo ?meta ''Ctrl+A''"
    by blast
  from matchesKeyCombo_exact_modifiers [of ?both "''Ctrl+A''"] both
  have 4: "\<not> matchesKeyCombo ?both ''Ctrl+A''"
    by blast
  from 1 2 3 4 show ?thesis
    by (intro conjI)
qed






lemma split_no_sep: "sep \<notin> set t \<Longrightarrow> split sep t = [t]"
  by (induction t) auto

lemma split_append_sep:
  "sep \<notin> set t \<Longrightarrow> split sep (t @ sep # rest) = t # split sep rest"
  by (induction t) auto

lemma split_join_plus:
  assumes "ts \<noteq> []" "\<forall>u\<in>set ts. CHR ''+'' \<notin> set u"
  shows "split CHR ''+'' (join_plus ts) = ts"
  using assms
  by (induction ts rule: join_plus.induct) (simp_all add: split_no_sep split_append_sep)

lemma toLowerCase_no_plus: "(CHR ''+'' \<in> set (toLowerCase u)) = (CHR ''+'' \<in> set u)"
proof -
  have "(CHR ''+'' = lower_char c) = (CHR ''+'' = c)" for c
    by (metis lower_char_plus)
  then show ?thesis
    by (induction u) (simp_all add: toLowerCase_def)
qed

lemma tokens_join_plus:
  assumes "\<forall>u\<in>set ts. CHR ''+'' \<notin> set u"
  shows "tokens_spec (join_plus ts) =
     (if ts = [] then [''''] else map (\<lambda>p. toLowerCase (trim p)) ts)"
  using assms by (simp add: tokens_spec_def split_join_plus) (simp add: toLowerCase_def trim_def)

lemma is_space_not_plus: "is_space c \<Longrightarrow> c \<noteq> CHR ''+''"
  by (auto simp: is_space_def Let_def)

lemma dropWhile_space_plus:
  "(CHR ''+'' \<in> set (dropWhile is_space t)) = (CHR ''+'' \<in> set t)"
  by (induction t) (auto dest: is_space_not_plus)

lemma trim_plus: "(CHR ''+'' \<in> set (trim t)) = (CHR ''+'' \<in> set t)"
  by (simp add: trim_def dropWhile_space_plus)

lemma meta_token_no_plus:
  assumes "toLowerCase (trim t) = ''cmd'' \<or> toLowerCase (trim t) = ''meta''"
  shows "CHR ''+'' \<notin> set t"
proof -
  from assms have "CHR ''+'' \<notin> set (toLowerCase (trim t))"
    by auto
  then show ?thesis
    by (simp add: toLowerCase_no_plus trim_plus)
qed

lemma matchesKeyCombo_reads:
  assumes "key (parseKeyCombo s) = key (parseKeyCombo s')"
    and "ctrlKey (parseKeyCombo s) = ctrlKey (parseKeyCombo s')"
    and "shiftKey (parseKeyCombo s) = shiftKey (parseKeyCombo s')"
    and "altKey (parseKeyCombo s) = altKey (parseKeyCombo s')"
  shows "matchesKeyCombo e s = matchesKeyCombo e s'"
  using assms by (simp add: matchesKeyCombo_def Let_def)

lemma spec_fields:
  "key (parseKeyCombo s) =
     (let keys = filter (\<lambda>t. \<not> is_modifier_token t) (tokens_spec s)
      in if keys = [] then '''' else last keys)"
  "ctrlKey (parseKeyCombo s) =
     (if ''ctrl'' \<in> set (tokens_spec s) \<or> ''control'' \<in> set (tokens_spec s) then Some True
      else None)"
  "shiftKey (parseKeyCombo s) = (if ''shift'' \<in> set (tokens_spec s) then Some True else None)"
  "altKey (parseKeyCombo s) = (if ''alt'' \<in> set (tokens_spec s) then Some True else None)"
  by (simp_all add: parseKeyCombo_eq_spec parseKeyCombo_spec_def Let_def)

lemma meta_token_dropped:
  assumes t: "toLowerCase (trim t) = ''cmd'' \<or> toLowerCase (trim t) = ''meta''"
    and free: "\<forall>u\<in>set (xs @ ys). CHR ''+'' \<notin> set u"
  shows "matchesKeyCombo e (join_plus (xs @ t # ys)) = matchesKeyCombo e (join_plus (xs @ ys))"
proof (rule matchesKeyCombo_reads)
  let ?f = "\<lambda>p. toLowerCase (trim p)"
  from t free have free': "\<forall>u\<in>set (xs @ t # ys). CHR ''+'' \<notin> set u"
    using meta_token_no_plus by auto
  have with_t: "tokens_spec (join_plus (xs @ t # ys)) = map ?f xs @ ?f t # map ?f ys"
    using tokens_join_plus [OF free'] by simp
  have without: "tokens_spec (join_plus (xs @ ys)) =
      (if xs @ ys = [] then [''''] else map ?f xs @ map ?f ys)"
    using tokens_join_plus [OF free] by simp
  have modifier: "is_modifier_token (?f t)"
    using t by (auto simp: is_modifier_token_def)
  have other: "?f t \<noteq> ''ctrl''" "?f t \<noteq> ''control''" "?f t \<noteq> ''shift''" "?f t \<noteq> ''alt''"
    using t by auto
  have empty: "\<not> is_modifier_token ''''"
    by (simp add: is_modifier_token_def)
  show "key (parseKeyCombo (join_plus (xs @ t # ys))) = key (parseKeyCombo (join_plus (xs @ ys)))"
    unfolding spec_fields with_t without using modifier empty by (auto simp: Let_def)
  show "ctrlKey (parseKeyCombo (join_plus (xs @ t # ys))) =
      ctrlKey (parseKeyCombo (join_plus (xs @ ys)))"
    unfolding spec_fields with_t without using other by (simp del: set_map)
  show "shiftKey (parseKeyCombo (join_plus (xs @ t # ys))) =
      shiftKey (parseKeyCombo (join_plus (xs @ ys)))"
    unfolding spec_fields with_t without using other by (simp del: set_map)
  show "altKey (parseKeyCombo (join_plus (xs @ t # ys))) =
      altKey (parseKeyCombo (join_plus (xs @ ys)))"
    unfolding spec_fields with_t without using other by (simp del: set_map)
qed

text \<open>
  Claim C9. \<open>matchesKeyCombo\<close> does not read the meta flag of the combination: two
  combinations that parse to the same combination up to the meta flag match the same
  events, and putting a \<open>cmd\<close> or \<open>meta\<close> token anywhere among the tokens of a
  combination string (or taking it out) does not change the result. So a press of \<open>d\<close> with
  no modifier matches \<open>Cmd+D\<close>, and a press of \<open>d\<close> with meta does not.
\<close>

theorem matchesKeyCombo_ignores_meta:
  "(parseKeyCombo s\<lparr>metaKey := m\<rparr> = parseKeyCombo s'\<lparr>metaKey := m\<rparr> \<longrightarrow>
      matchesKeyCombo e s = matchesKeyCombo e s') \<and>
   ((toLowerCase (trim t) = ''cmd'' \<or> toLowerCase (trim t) = ''meta'') \<and>
    (\<forall>u\<in>set (xs @ ys). CHR ''+'' \<notin> set u) \<longrightarrow>
      matchesKeyCombo e (join_plus (xs @ t # ys)) = matchesKeyCombo e (join_plus (xs @ ys))) \<and>
   (ev_key e = ''d'' \<and> \<not> ev_ctrlKey e \<and> \<not> ev_metaKey e \<and> \<not> ev_shiftKey e \<and> \<not> ev_altKey e \<longrightarrow>
      matchesKeyCombo e ''Cmd+D'') \<and>
   (ev_key e = ''d'' \<and> ev_metaKey e \<longrightarrow> \<not> matchesKeyCombo e ''Cmd+D'')"
proof (intro conjI impI; (elim conjE)?)
  show "matchesKeyCombo e s = matchesKeyCombo e s'"
    if eq: "parseKeyCombo s\<lparr>metaKey := m\<rparr> = parseKeyCombo s'\<lparr>metaKey := m\<rparr>"
  proof (rule matchesKeyCombo_reads)
    show "key (parseKeyCombo s) = key (parseKeyCombo s')"
      using arg_cong [OF eq, of key] by simp
    show "ctrlKey (parseKeyCombo s) = ctrlKey (parseKeyCombo s')"
      using arg_cong [OF eq, of ctrlKey] by simp
    show "shiftKey (parseKeyCombo s) = shiftKey (parseKeyCombo s')"
      using arg_cong [OF eq, of shiftKey] by simp
    show "altKey (parseKeyCombo s) = altKey (parseKeyCombo s')"
      using arg_cong [OF eq, of altKey] by simp
  qed
  show "matchesKeyCombo e (join_plus (xs @ t # ys)) = matchesKeyCombo e (join_plus (xs @ ys))"
    if "toLowerCase (trim t) = ''cmd'' \<or> toLowerCase (trim t) = ''meta''"
      "\<forall>u\<in>set (xs @ ys). CHR ''+'' \<notin> set u"
    using that by (rule meta_token_dropped)
  show "matchesKeyCombo e ''Cmd+D''"
    if "ev_key e = ''d''" "\<not> ev_ctrlKey e" "\<not> ev_metaKey e" "\<not> ev_shiftKey e" "\<not> ev_altKey e"
    using that
    by (simp add: matchesKeyCombo_def parse_examples normalizeKey_examples truthy_def)
  show "\<not> matchesKeyCombo e ''Cmd+D''" if "ev_key e = ''d''" "ev_metaKey e"
    using that by (simp add: matchesKeyCombo_def parse_examples truthy_def)
qed


theorem matchesKeyCombo_ignores_meta_witness:
  "matchesKeyCombo (keydown ''d'') ''Cmd+D'' \<and>
   \<not> matchesKeyCombo ((keydown ''d'')\<lparr>ev_metaKey := True\<rparr>) ''Cmd+D'' \<and>
   matchesKeyCombo ((keydown ''d'')\<lparr>ev_shiftKey := True\<rparr>) ''Shift+ Cmd +D'' =
     matchesKeyCombo ((keydown ''d'')\<lparr>ev_shiftKey := True\<rparr>) ''Shift+D'' \<and>
   matchesKeyCombo (keydown ''d'') ''Cmd+D'' = matchesKeyCombo (keydown ''d'') ''D''"
proof -
  let ?plain = "keydown ''d''"
  let ?meta = "(keydown ''d'')\<lparr>ev_metaKey := True\<rparr>"
  let ?shift = "(keydown ''d'')\<lparr>ev_shiftKey := True\<rparr>"
  have plain: "ev_key ?plain = ''d'' \<and> \<not> ev_ctrlKey ?plain \<and> \<not> ev_metaKey ?plain \<and>
      \<not> ev_shiftKey ?plain \<and> \<not> ev_altKey ?plain"
    by (simp add: keydown_def)
  have meta: "ev_key ?meta = ''d'' \<and> ev_metaKey ?meta"
    by (simp add: keydown_def)
  have token: "toLowerCase (trim '' Cmd '') = ''cmd'' \<or> toLowerCase (trim '' Cmd '') = ''meta''"
    by code_simp
  have free: "\<forall>u\<in>set ([''Shift''] @ [''D'']). CHR ''+'' \<notin> set u"
    by simp
  have joined: "join_plus ([''Shift''] @ '' Cmd '' # [''D'']) = ''Shift+ Cmd +D''"
    "join_plus ([''Shift''] @ [''D'']) = ''Shift+D''"
    by simp_all
  have erased: "parseKeyCombo ''Cmd+D''\<lparr>metaKey := None\<rparr> = parseKeyCombo ''D''\<lparr>metaKey := None\<rparr>"
    by code_simp
  from matchesKeyCombo_ignores_meta [where e = ?plain] plain
  have 1: "matchesKeyCombo ?plain ''Cmd+D''"
    by blast
  from matchesKeyCombo_ignores_meta [where e = ?meta] meta
  have 2: "\<not> matchesKeyCombo ?meta ''Cmd+D''"
    by blast
  from matchesKeyCombo_ignores_meta
         [where e = ?shift and t = "'' Cmd ''" and xs = "[''Shift'']" and ys = "[''D'']"]
    token free
  have "matchesKeyCombo ?shift (join_plus ([''Shift''] @ '' Cmd '' # [''D''])) =
      matchesKeyCombo ?shift (join_plus ([''Shift''] @ [''D'']))"
    by blast
  then have 3: "matchesKeyCombo ?shift ''Shift+ Cmd +D'' = matchesKeyCombo ?shift ''Shift+D''"
    unfolding joined .
  from matchesKeyCombo_ignores_meta
         [where s = "''Cmd+D''" and m = None and s' = "''D''" and e = ?plain] erased
  have 4: "matchesKeyCombo ?plain ''Cmd+D'' = matchesKeyCombo ?plain ''D''"
    by blast
  from 1 2 3 4 show ?thesis
    by (intro conjI)
qed

section \<open>Sorting\<close>

lemma rank_le:
  "x \<noteq> NaN \<Longrightarrow> y \<noteq> NaN \<Longrightarrow> (\<not> positive (number_minus x y)) = (rank x \<le> rank y)"
  by (cases x; cases y) (auto simp: positive_def rank_def)

lemma number_le_rank: "x \<noteq> NaN \<Longrightarrow> y \<noteq> NaN \<Longrightarrow> number_le x y = (rank x \<le> rank y)"
  by (cases x; cases y) (auto simp: rank_def)

lemma rank_inject: "(rank x = rank y) = (x = y)"
  by (cases x; cases y) (auto simp: rank_def)

lemma orderOrMax_NaN: "(orderOrMax x = NaN) = (order x = Some NaN)"
  by (simp add: orderOrMax_def MAX_SAFE_INTEGER_def split: option.splits)

lemma mset_sort_insert: "mset (sort_insert cmp x ys) = add_mset x (mset ys)"
  by (induction ys) simp_all

lemma mset_Array_sort: "mset (Array_sort cmp xs) = mset xs"
  by (induction xs) (simp_all add: Array_sort_def mset_sort_insert)

lemma set_Array_sort: "set (Array_sort cmp xs) = set xs"
  using mset_Array_sort [of cmp xs] by (metis set_mset_mset)

lemma sort_insert_insort_key:
  assumes "\<And>a b. P a \<Longrightarrow> P b \<Longrightarrow> (\<not> positive (cmp a b)) = (f a \<le> f b)"
    and "P x" and "\<forall>y\<in>set ys. P y"
  shows "sort_insert cmp x ys = insort_key f x ys"
  using assms(3) by (induction ys) (simp_all add: assms(1,2))

lemma Array_sort_sort_key:
  assumes "\<And>a b. P a \<Longrightarrow> P b \<Longrightarrow> (\<not> positive (cmp a b)) = (f a \<le> f b)"
    and "\<forall>x\<in>set xs. P x"
  shows "Array_sort cmp xs = sort_key f xs"
  using assms(2)
proof (induction xs)
  case Nil
  then show ?case by (simp add: Array_sort_def)
next
  case (Cons x xs)
  then have IH: "Array_sort cmp xs = sort_key f xs" and x: "P x" and xs: "\<forall>y\<in>set xs. P y"
    by simp_all
  have "Array_sort cmp (x # xs) = sort_insert cmp x (sort_key f xs)"
    using IH by (simp add: Array_sort_def)
  also have "\<dots> = insort_key f x (sort_key f xs)"
    using assms(1) x xs by (intro sort_insert_insort_key [where P = P]) simp_all
  finally show ?case
    by (simp add: sort_key_def)
qed

lemma Array_sort_compareOrder:
  assumes "list_all (\<lambda>x. order x \<noteq> Some NaN) xs"
  shows "Array_sort compareOrder xs = sort_key (\<lambda>x. rank (orderOrMax x)) xs"
proof (rule Array_sort_sort_key [where P = "\<lambda>x. order x \<noteq> Some NaN"])
  show "(\<not> positive (compareOrder a b)) = (rank (orderOrMax a) \<le> rank (orderOrMax b))"
    if "order a \<noteq> Some NaN" "order b \<noteq> Some NaN" for a b :: "'a ShortcutEntry"
    using that by (simp add: compareOrder_def rank_le orderOrMax_NaN)
  show "\<forall>x\<in>set xs. order x \<noteq> Some NaN"
    using assms by (simp add: list_all_iff)
qed

lemma sorted_Array_sort:
  assumes "list_all (\<lambda>x. order x \<noteq> Some NaN) xs"
  shows "sorted_wrt (\<lambda>a b. number_le (orderOrMax a) (orderOrMax b)) (Array_sort compareOrder xs)"
proof -
  let ?f = "\<lambda>x. rank (orderOrMax x)"
  have "sorted (map ?f (sort_key ?f xs))"
    by simp
  then have "sorted_wrt (\<lambda>a b. ?f a \<le> ?f b) (sort_key ?f xs)"
    by (simp add: sorted_map)
  moreover have "number_le (orderOrMax a) (orderOrMax b)"
    if "a \<in> set (sort_key ?f xs)" "b \<in> set (sort_key ?f xs)" "?f a \<le> ?f b" for a b
    using that assms by (simp add: list_all_iff number_le_rank orderOrMax_NaN)
  ultimately have
    "sorted_wrt (\<lambda>a b. number_le (orderOrMax a) (orderOrMax b)) (sort_key ?f xs)"
    by (rule sorted_wrt_mono_rel [rotated])
  then show ?thesis
    by (simp add: Array_sort_compareOrder [OF assms])
qed

lemma stable_Array_sort:
  assumes "list_all (\<lambda>x. order x \<noteq> Some NaN) xs"
  shows "filter (\<lambda>x. orderOrMax x = w) (Array_sort compareOrder xs) =
     filter (\<lambda>x. orderOrMax x = w) xs"
proof -
  let ?f = "\<lambda>x. rank (orderOrMax x)"
  have "filter (\<lambda>x. ?f x = rank w) (sort_key ?f xs) = filter (\<lambda>x. ?f x = rank w) xs"
    by (rule sort_key_stable)
  then show ?thesis
    by (simp add: Array_sort_compareOrder [OF assms] rank_inject)
qed

lemma number_le_refl: "x \<noteq> NaN \<Longrightarrow> number_le x x"
  by (cases x) simp_all

lemma find_sorted_least:
  assumes sorted: "sorted_wrt (\<lambda>a b. number_le (orderOrMax a) (orderOrMax b)) xs"
    and clean: "list_all (\<lambda>x. order x \<noteq> Some NaN) xs"
    and found: "find P xs = Some s"
    and x: "x \<in> set xs" "P x"
  shows "number_le (orderOrMax s) (orderOrMax x)"
proof -
  from found obtain i where i: "i < length xs" "P (xs ! i)" "s = xs ! i"
    and first: "\<forall>j<i. \<not> P (xs ! j)"
    by (auto simp: find_Some_iff)
  from x(1) obtain j where j: "j < length xs" "x = xs ! j"
    by (auto simp: in_set_conv_nth)
  with first x(2) have "i \<le> j"
    by (meson not_le_imp_less)
  show ?thesis
  proof (cases "i = j")
    case True
    with i j clean x(1) show ?thesis
      by (simp add: list_all_iff number_le_refl orderOrMax_NaN)
  next
    case False
    with \<open>i \<le> j\<close> have "i < j" by simp
    with sorted j(1) have "number_le (orderOrMax (xs ! i)) (orderOrMax (xs ! j))"
      by (simp add: sorted_wrt_iff_nth_less)
    with i j show ?thesis by simp
  qed
qed

section \<open>Objects and the snapshot\<close>

lemma mset_Object_entries: "mset (Object_entries obj) = mset (own obj)"
  by (simp add: Object_entries_def)

lemma set_Object_values: "set (Object_values obj) = snd ` set (own obj)"
proof -
  have "set (Object_entries obj) = set (own obj)"
    using mset_Object_entries [of obj] by (metis set_mset_mset)
  then show ?thesis
    by (simp add: Object_values_def)
qed

lemma own_in_flat:
  assumes "map_of (own obj) c = Some xs"
  shows "set xs \<subseteq> set (concat (Object_values obj))"
proof -
  from assms have "(c, xs) \<in> set (own obj)"
    by (rule map_of_SomeD)
  then have "xs \<in> set (Object_values obj)"
    by (force simp: set_Object_values)
  then show ?thesis
    by auto
qed

lemma get_property_own:
  assumes "get_property obj c = ArrayValue xs" "c \<noteq> ''__proto__''"
  shows "map_of (own obj) c = Some xs"
  using assms by (auto simp: get_property_def split: option.splits if_splits)

lemma set_property_twice: "set_property (set_property obj k u) k v = set_property obj k v"
  by (auto simp: set_property_def update_conv')

lemma get_set_same: "get_property (set_property obj k v) k = ArrayValue v"
  by (auto simp: get_property_def set_property_def update_conv')

lemma get_set_other:
  assumes "k \<noteq> c" "get_property obj c = ArrayValue xs"
  shows "get_property (set_property obj k v) c = ArrayValue xs"
proof (cases "map_of (own obj) c")
  case (Some ys)
  with assms show ?thesis
    by (simp add: get_property_def set_property_def update_conv')
next
  case None
  with assms(2) have p: "proto obj = Some xs" "c = ''__proto__''"
    by (auto simp: get_property_def split: option.splits if_splits)
  with None assms(1) show ?thesis
    by (simp add: get_property_def set_property_def update_conv')
qed

lemma updateCategory_eq:
  "updateCategory obj ce =
     set_property obj (fst ce) (Array_sort compareOrder (Map_values (snd ce)))"
  by (simp add: updateCategory_def Let_def set_property_twice)

lemma get_updateCategory_same:
  "get_property (updateCategory obj ce) (fst ce) =
     ArrayValue (Array_sort compareOrder (Map_values (snd ce)))"
  by (simp only: updateCategory_eq get_set_same)

lemma get_updateCategory_other:
  assumes "fst ce \<noteq> c" "get_property obj c = ArrayValue xs"
  shows "get_property (updateCategory obj ce) c = ArrayValue xs"
  unfolding updateCategory_eq using assms by (rule get_set_other)

lemma get_foldl_updateCategory:
  assumes "map_of (rev reg) c = Some m"
  shows "get_property (foldl updateCategory obj reg) c =
     ArrayValue (Array_sort compareOrder (Map_values m))"
  using assms
proof (induction reg arbitrary: m rule: rev_induct)
  case Nil
  then show ?case by simp
next
  case (snoc ce reg)
  have step: "foldl updateCategory obj (reg @ [ce]) =
      updateCategory (foldl updateCategory obj reg) ce"
    by simp
  show ?case
  proof (cases "fst ce = c")
    case True
    with snoc.prems have "snd ce = m"
      by (cases ce) simp
    with True show ?thesis
      unfolding step using get_updateCategory_same [of "foldl updateCategory obj reg" ce]
      by simp
  next
    case False
    with snoc.prems have "map_of (rev reg) c = Some m"
      by (cases ce) (simp split: if_splits)
    then have "get_property (foldl updateCategory obj reg) c =
        ArrayValue (Array_sort compareOrder (Map_values m))"
      by (rule snoc.IH)
    with False show ?thesis
      unfolding step by (rule get_updateCategory_other)
  qed
qed

lemma map_of_rev_distinct:
  assumes "distinct (map fst xs)"
  shows "map_of (rev xs) = map_of xs"
  using assms by (intro map_of_inject_set [THEN iffD2]) (simp_all add: rev_map [symmetric])

lemma get_property_updateRegistry:
  assumes "Map_ok (shortcutsRegistry st)" "Map_get (shortcutsRegistry st) c = Some m"
  shows "get_property (shortcuts (updateRegistry st)) c =
     ArrayValue (Array_sort compareOrder (Map_values m))"
proof -
  from assms have "map_of (rev (shortcutsRegistry st)) c = Some m"
    by (simp add: map_of_rev_distinct Map_ok_def)
  then have "get_property (foldl updateCategory obj (shortcutsRegistry st)) c =
      ArrayValue (Array_sort compareOrder (Map_values m))" for obj
    by (rule get_foldl_updateCategory)
  then show ?thesis
    by (simp add: updateRegistry_def setShortcuts_def incrementVersion_def Let_def)
qed

lemma getShortcuts_updateRegistry:
  assumes "Map_ok (shortcutsRegistry st)" "Map_get (shortcutsRegistry st) c = Some m"
  shows "getShortcuts c (updateRegistry st) = ArrayValue (Array_sort compareOrder (Map_values m))"
  by (simp add: getShortcuts_def get_property_updateRegistry [OF assms] ToBoolean_def)

lemma hook_getAllShortcuts_eq: "hook_getAllShortcuts (shortcuts st) = getAllShortcuts st"
  by (simp add: hook_getAllShortcuts_def getAllShortcuts_def)

lemma registered_in_all:
  assumes "Map_ok (shortcutsRegistry st)" "Map_get (shortcutsRegistry st) c = Some m"
    and "c \<noteq> ''__proto__''"
  shows "set (Map_values m) \<subseteq> set (getAllShortcuts (updateRegistry st))"
proof -
  have "map_of (own (shortcuts (updateRegistry st))) c =
      Some (Array_sort compareOrder (Map_values m))"
    using get_property_updateRegistry [OF assms(1,2)] assms(3) by (rule get_property_own)
  then have "set (Array_sort compareOrder (Map_values m)) \<subseteq>
      set (concat (Object_values (shortcuts (updateRegistry st))))"
    by (rule own_in_flat)
  then show ?thesis
    by (simp add: getAllShortcuts_def set_Array_sort)
qed

section \<open>The key-press handler: guard and first match\<close>

lemma scanShortcuts_find:
  "scanShortcuts call xs event st =
     (case find (\<lambda>s. truthy (enabled s) \<and> matchesKeyCombo event (keyCombo s)) xs of
        None \<Rightarrow> (Return (), event, st)
      | Some s \<Rightarrow>
          (Return (), event\<lparr>defaultPrevented := True, propagationStopped := True\<rparr>,
           (case call (action s) st of
              (Return u, st') \<Rightarrow> st'
            | (Throw x, st') \<Rightarrow>
                console_error (''Error executing shortcut '' @ name s @ '':'') x st')))"
  by (induction xs)
     (auto simp: preventDefault_def stopPropagation_def split: prod.splits completion.splits)

lemma handleKeyDown_find:
  assumes "\<not> is_text_entry (ev_target event)"
  shows "handleKeyDown call cachedShortcuts event st =
     (case find (\<lambda>s. truthy (enabled s) \<and> matchesKeyCombo event (keyCombo s))
             (hook_getAllShortcuts cachedShortcuts) of
        None \<Rightarrow> (Return (), event, st)
      | Some s \<Rightarrow>
          (Return (), event\<lparr>defaultPrevented := True, propagationStopped := True\<rparr>,
           (case call (action s) st of
              (Return u, st') \<Rightarrow> st'
            | (Throw x, st') \<Rightarrow>
                console_error (''Error executing shortcut '' @ name s @ '':'') x st')))"
  using assms by (simp add: handleKeyDown_def scanShortcuts_find)

lemma handleKeyDown_guard:
  assumes "is_text_entry (ev_target event)"
  shows "handleKeyDown call cachedShortcuts event st = (Return (), event, st)"
  using assms by (simp add: handleKeyDown_def)

lemma hook_getAllShortcuts_least:
  assumes clean: "list_all (\<lambda>x. order x \<noteq> Some NaN) (concat (Object_values cachedShortcuts))"
    and found: "find P (hook_getAllShortcuts cachedShortcuts) = Some s"
    and x: "x \<in> set (concat (Object_values cachedShortcuts))" "P x"
  shows "number_le (orderOrMax s) (orderOrMax x)"
proof -
  let ?xs = "concat (Object_values cachedShortcuts)"
  have eq: "hook_getAllShortcuts cachedShortcuts = Array_sort compareOrder ?xs"
    by (simp add: hook_getAllShortcuts_def)
  have "sorted_wrt (\<lambda>a b. number_le (orderOrMax a) (orderOrMax b)) (Array_sort compareOrder ?xs)"
    using clean by (rule sorted_Array_sort)
  moreover have "list_all (\<lambda>x. order x \<noteq> Some NaN) (Array_sort compareOrder ?xs)"
    using clean by (simp add: list_all_iff set_Array_sort)
  moreover have "find P (Array_sort compareOrder ?xs) = Some s"
    using found by (simp only: eq)
  moreover have "x \<in> set (Array_sort compareOrder ?xs)"
    using x(1) by (simp only: set_Array_sort)
  ultimately show ?thesis
    using x(2) by (rule find_sorted_least)
qed

text \<open>
  Claim C1, as amended. A key press that passes the guard runs the action of at most one
  entry: the handler looks for the first entry of the flattened, ordered snapshot that is
  enabled and whose key combination matches the event. If there is none, the event and the
  state are as before. If there is one, the event has its default prevented and its
  propagation stopped, and the state is the one that this single call of the entry's
  action leaves (with a console line added when the action throws); no entry behind it is
  called, and a disabled entry is never the one found. The sequence that is scanned holds
  the entries of the snapshot's categories; when no order among them is \<open>NaN\<close> it is
  ascending by order (an entry without an order counting as \<open>Number.MAX_SAFE_INTEGER\<close>),
  entries of equal order keep the sequence they have in the snapshot, and so the entry
  found has the least order among the enabled entries that match.
\<close>

theorem handleKeyDown_first_match:
  "(\<not> is_text_entry (ev_target event) \<longrightarrow>
      handleKeyDown call cachedShortcuts event st =
        (case find (\<lambda>s. truthy (enabled s) \<and> matchesKeyCombo event (keyCombo s))
                (hook_getAllShortcuts cachedShortcuts) of
           None \<Rightarrow> (Return (), event, st)
         | Some s \<Rightarrow>
             (Return (), event\<lparr>defaultPrevented := True, propagationStopped := True\<rparr>,
              (case call (action s) st of
                 (Return u, st') \<Rightarrow> st'
               | (Throw x, st') \<Rightarrow>
                   console_error (''Error executing shortcut '' @ name s @ '':'') x st')))) \<and>
   mset (hook_getAllShortcuts cachedShortcuts) = mset (concat (Object_values cachedShortcuts)) \<and>
   (list_all (\<lambda>x. order x \<noteq> Some NaN) (concat (Object_values cachedShortcuts)) \<longrightarrow>
      sorted_wrt (\<lambda>a b. number_le (orderOrMax a) (orderOrMax b))
        (hook_getAllShortcuts cachedShortcuts) \<and>
      filter (\<lambda>x. orderOrMax x = w) (hook_getAllShortcuts cachedShortcuts) =
        filter (\<lambda>x. orderOrMax x = w) (concat (Object_values cachedShortcuts)) \<and>
      (find (\<lambda>s. truthy (enabled s) \<and> matchesKeyCombo event (keyCombo s))
         (hook_getAllShortcuts cachedShortcuts) = Some found \<and>
       other \<in> set (concat (Object_values cachedShortcuts)) \<and>
       truthy (enabled other) \<and> matchesKeyCombo event (keyCombo other) \<longrightarrow>
         number_le (orderOrMax found) (orderOrMax other)))"
proof (intro conjI impI; (elim conjE)?)
  show "handleKeyDown call cachedShortcuts event st =
        (case find (\<lambda>s. truthy (enabled s) \<and> matchesKeyCombo event (keyCombo s))
                (hook_getAllShortcuts cachedShortcuts) of
           None \<Rightarrow> (Return (), event, st)
         | Some s \<Rightarrow>
             (Return (), event\<lparr>defaultPrevented := True, propagationStopped := True\<rparr>,
              (case call (action s) st of
                 (Return u, st') \<Rightarrow> st'
               | (Throw x, st') \<Rightarrow>
                   console_error (''Error executing shortcut '' @ name s @ '':'') x st')))"
    if "\<not> is_text_entry (ev_target event)"
    using that by (rule handleKeyDown_find)
  show "mset (hook_getAllShortcuts cachedShortcuts) =
      mset (concat (Object_values cachedShortcuts))"
    by (simp add: hook_getAllShortcuts_def mset_Array_sort)
  assume clean: "list_all (\<lambda>x. order x \<noteq> Some NaN) (concat (Object_values cachedShortcuts))"
  show "sorted_wrt (\<lambda>a b. number_le (orderOrMax a) (orderOrMax b))
        (hook_getAllShortcuts cachedShortcuts)"
    using sorted_Array_sort [OF clean] by (simp add: hook_getAllShortcuts_def)
  show "filter (\<lambda>x. orderOrMax x = w) (hook_getAllShortcuts cachedShortcuts) =
        filter (\<lambda>x. orderOrMax x = w) (concat (Object_values cachedShortcuts))"
    using stable_Array_sort [OF clean] by (simp add: hook_getAllShortcuts_def)
  show "number_le (orderOrMax found) (orderOrMax other)"
    if "find (\<lambda>s. truthy (enabled s) \<and> matchesKeyCombo event (keyCombo s))
         (hook_getAllShortcuts cachedShortcuts) = Some found"
      "other \<in> set (concat (Object_values cachedShortcuts))"
      "truthy (enabled other)" "matchesKeyCombo event (keyCombo other)"
    using hook_getAllShortcuts_least
      [where P = "\<lambda>s. truthy (enabled s) \<and> matchesKeyCombo event (keyCombo s)", OF clean that(1,2)]
      that(3,4)
    by simp
qed

theorem handleKeyDown_first_match_witness:
  "\<not> is_text_entry (ev_target ((keydown ''a'')\<lparr>ev_ctrlKey := True\<rparr>)) \<and>
   list_all (\<lambda>x. order x \<noteq> Some NaN) (concat (Object_values (shortcuts ex_by_order))) \<and>
   map name (concat (Object_values (shortcuts ex_by_order))) = [''late'', ''early''] \<and>
   sorted_wrt (\<lambda>a b. number_le (orderOrMax a) (orderOrMax b))
     (hook_getAllShortcuts (shortcuts ex_by_order)) \<and>
   map name (hook_getAllShortcuts (shortcuts ex_by_order)) = [''early'', ''late''] \<and>
   find (\<lambda>s. truthy (enabled s) \<and>
               matchesKeyCombo ((keydown ''a'')\<lparr>ev_ctrlKey := True\<rparr>) (keyCombo s))
     (hook_getAllShortcuts (shortcuts ex_by_order)) =
     Some (hd (hook_getAllShortcuts (shortcuts ex_by_order))) \<and>
   hd (concat (Object_values (shortcuts ex_by_order))) \<in>
     set (concat (Object_values (shortcuts ex_by_order))) \<and>
   truthy (enabled (hd (concat (Object_values (shortcuts ex_by_order))))) \<and>
   matchesKeyCombo ((keydown ''a'')\<lparr>ev_ctrlKey := True\<rparr>)
     (keyCombo (hd (concat (Object_values (shortcuts ex_by_order))))) \<and>
   number_le (orderOrMax (hd (hook_getAllShortcuts (shortcuts ex_by_order))))
     (orderOrMax (hd (concat (Object_values (shortcuts ex_by_order))))) \<and>
   handleKeyDown ex_call (shortcuts ex_by_order) ((keydown ''a'')\<lparr>ev_ctrlKey := True\<rparr>)
     ex_by_order =
     (Return (),
      (keydown ''a'')\<lparr>ev_ctrlKey := True, defaultPrevented := True, propagationStopped := True\<rparr>,
      ex_by_order\<lparr>app := [''early'']\<rparr>) \<and>
   handleKeyDown ex_call (shortcuts ex_conflict) ((keydown ''a'')\<lparr>ev_ctrlKey := True\<rparr>)
     ex_conflict =
     (Return (),
      (keydown ''a'')\<lparr>ev_ctrlKey := True, defaultPrevented := True, propagationStopped := True\<rparr>,
      ex_conflict\<lparr>app := [''action1'']\<rparr>) \<and>
   handleKeyDown ex_call (shortcuts ex_mixed) ((keydown ''d'')\<lparr>ev_ctrlKey := True\<rparr>) ex_mixed =
     (Return (), (keydown ''d'')\<lparr>ev_ctrlKey := True\<rparr>, ex_mixed) \<and>
   handleKeyDown ex_call (shortcuts ex_mixed) ((keydown ''b'')\<lparr>ev_ctrlKey := True\<rparr>) ex_mixed =
     (Return (),
      (keydown ''b'')\<lparr>ev_ctrlKey := True, defaultPrevented := True, propagationStopped := True\<rparr>,
      ex_mixed\<lparr>console := [(''Error executing shortcut boom:'', ''boom'')],
               app := [''boom'']\<rparr>)"
proof -
  let ?a = "(keydown ''a'')\<lparr>ev_ctrlKey := True\<rparr>"
  let ?d = "(keydown ''d'')\<lparr>ev_ctrlKey := True\<rparr>"
  let ?b = "(keydown ''b'')\<lparr>ev_ctrlKey := True\<rparr>"
  have guard: "\<not> is_text_entry (ev_target ?a)" "\<not> is_text_entry (ev_target ?d)"
    "\<not> is_text_entry (ev_target ?b)"
    by code_simp+
  have clean:
    "list_all (\<lambda>x. order x \<noteq> Some NaN) (concat (Object_values (shortcuts ex_by_order)))"
    by code_simp
  have snapshot: "map name (concat (Object_values (shortcuts ex_by_order))) = [''late'', ''early'']"
    by code_simp
  have scanned: "map name (hook_getAllShortcuts (shortcuts ex_by_order)) = [''early'', ''late'']"
    by code_simp
  let ?early = "hd (hook_getAllShortcuts (shortcuts ex_by_order))"
  let ?late = "hd (concat (Object_values (shortcuts ex_by_order)))"
  have found:
    "find (\<lambda>s. truthy (enabled s) \<and> matchesKeyCombo ?a (keyCombo s))
       (hook_getAllShortcuts (shortcuts ex_by_order)) = Some ?early"
    by code_simp
  have other: "?late \<in> set (concat (Object_values (shortcuts ex_by_order)))"
    "truthy (enabled ?late)" "matchesKeyCombo ?a (keyCombo ?late)"
    by code_simp+
  have ordered:
    "(case find (\<lambda>s. truthy (enabled s) \<and> matchesKeyCombo ?a (keyCombo s))
               (hook_getAllShortcuts (shortcuts ex_by_order)) of
        None \<Rightarrow> (Return () :: (unit, string) completion, ?a, ex_by_order)
      | Some s \<Rightarrow>
          (Return (), ?a\<lparr>defaultPrevented := True, propagationStopped := True\<rparr>,
           (case ex_call (action s) ex_by_order of
              (Return u, st') \<Rightarrow> st'
            | (Throw x, st') \<Rightarrow>
                console_error (''Error executing shortcut '' @ name s @ '':'') x st'))) =
     (Return (),
      (keydown ''a'')\<lparr>ev_ctrlKey := True, defaultPrevented := True, propagationStopped := True\<rparr>,
      ex_by_order\<lparr>app := [''early'']\<rparr>)"
    by code_simp
  have first:
    "(case find (\<lambda>s. truthy (enabled s) \<and> matchesKeyCombo ?a (keyCombo s))
               (hook_getAllShortcuts (shortcuts ex_conflict)) of
        None \<Rightarrow> (Return () :: (unit, string) completion, ?a, ex_conflict)
      | Some s \<Rightarrow>
          (Return (), ?a\<lparr>defaultPrevented := True, propagationStopped := True\<rparr>,
           (case ex_call (action s) ex_conflict of
              (Return u, st') \<Rightarrow> st'
            | (Throw x, st') \<Rightarrow>
                console_error (''Error executing shortcut '' @ name s @ '':'') x st'))) =
     (Return (),
      (keydown ''a'')\<lparr>ev_ctrlKey := True, defaultPrevented := True, propagationStopped := True\<rparr>,
      ex_conflict\<lparr>app := [''action1'']\<rparr>)"
    by code_simp
  have disabled:
    "(case find (\<lambda>s. truthy (enabled s) \<and> matchesKeyCombo ?d (keyCombo s))
               (hook_getAllShortcuts (shortcuts ex_mixed)) of
        None \<Rightarrow> (Return () :: (unit, string) completion, ?d, ex_mixed)
      | Some s \<Rightarrow>
          (Return (), ?d\<lparr>defaultPrevented := True, propagationStopped := True\<rparr>,
           (case ex_call (action s) ex_mixed of
              (Return u, st') \<Rightarrow> st'
            | (Throw x, st') \<Rightarrow>
                console_error (''Error executing shortcut '' @ name s @ '':'') x st'))) =
     (Return (), (keydown ''d'')\<lparr>ev_ctrlKey := True\<rparr>, ex_mixed)"
    by code_simp
  have throwing:
    "(case find (\<lambda>s. truthy (enabled s) \<and> matchesKeyCombo ?b (keyCombo s))
               (hook_getAllShortcuts (shortcuts ex_mixed)) of
        None \<Rightarrow> (Return () :: (unit, string) completion, ?b, ex_mixed)
      | Some s \<Rightarrow>
          (Return (), ?b\<lparr>defaultPrevented := True, propagationStopped := True\<rparr>,
           (case ex_call (action s) ex_mixed of
              (Return u, st') \<Rightarrow> st'
            | (Throw x, st') \<Rightarrow>
                console_error (''Error executing shortcut '' @ name s @ '':'') x st'))) =
     (Return (),
      (keydown ''b'')\<lparr>ev_ctrlKey := True, defaultPrevented := True, propagationStopped := True\<rparr>,
      ex_mixed\<lparr>console := [(''Error executing shortcut boom:'', ''boom'')],
               app := [''boom'']\<rparr>)"
    by code_simp
  note by_order =
    handleKeyDown_first_match
      [where call = ex_call and cachedShortcuts = "shortcuts ex_by_order" and event = ?a
         and st = ex_by_order]
  note conflict =
    handleKeyDown_first_match
      [where call = ex_call and cachedShortcuts = "shortcuts ex_conflict" and event = ?a
         and st = ex_conflict]
  note mixed_d =
    handleKeyDown_first_match
      [where call = ex_call and cachedShortcuts = "shortcuts ex_mixed" and event = ?d
         and st = ex_mixed]
  note mixed_b =
    handleKeyDown_first_match
      [where call = ex_call and cachedShortcuts = "shortcuts ex_mixed" and event = ?b
         and st = ex_mixed]
  from by_order clean have 1:
    "sorted_wrt (\<lambda>a b. number_le (orderOrMax a) (orderOrMax b))
       (hook_getAllShortcuts (shortcuts ex_by_order))"
    by blast
  from by_order [where found = ?early and other = ?late] clean found other
  have least: "number_le (orderOrMax ?early) (orderOrMax ?late)"
    by blast
  from by_order guard(1) have
    "handleKeyDown ex_call (shortcuts ex_by_order) ?a ex_by_order =
       (case find (\<lambda>s. truthy (enabled s) \<and> matchesKeyCombo ?a (keyCombo s))
               (hook_getAllShortcuts (shortcuts ex_by_order)) of
        None \<Rightarrow> (Return (), ?a, ex_by_order)
      | Some s \<Rightarrow>
          (Return (), ?a\<lparr>defaultPrevented := True, propagationStopped := True\<rparr>,
           (case ex_call (action s) ex_by_order of
              (Return u, st') \<Rightarrow> st'
            | (Throw x, st') \<Rightarrow>
                console_error (''Error executing shortcut '' @ name s @ '':'') x st')))"
    by blast
  then have 2: "handleKeyDown ex_call (shortcuts ex_by_order) ?a ex_by_order =
     (Return (),
      (keydown ''a'')\<lparr>ev_ctrlKey := True, defaultPrevented := True, propagationStopped := True\<rparr>,
      ex_by_order\<lparr>app := [''early'']\<rparr>)"
    by (simp only: ordered)
  from conflict guard(1) have
    "handleKeyDown ex_call (shortcuts ex_conflict) ?a ex_conflict =
       (case find (\<lambda>s. truthy (enabled s) \<and> matchesKeyCombo ?a (keyCombo s))
               (hook_getAllShortcuts (shortcuts ex_conflict)) of
        None \<Rightarrow> (Return (), ?a, ex_conflict)
      | Some s \<Rightarrow>
          (Return (), ?a\<lparr>defaultPrevented := True, propagationStopped := True\<rparr>,
           (case ex_call (action s) ex_conflict of
              (Return u, st') \<Rightarrow> st'
            | (Throw x, st') \<Rightarrow>
                console_error (''Error executing shortcut '' @ name s @ '':'') x st')))"
    by blast
  then have 3: "handleKeyDown ex_call (shortcuts ex_conflict) ?a ex_conflict =
     (Return (),
      (keydown ''a'')\<lparr>ev_ctrlKey := True, defaultPrevented := True, propagationStopped := True\<rparr>,
      ex_conflict\<lparr>app := [''action1'']\<rparr>)"
    by (simp only: first)
  from mixed_d guard(2) have
    "handleKeyDown ex_call (shortcuts ex_mixed) ?d ex_mixed =
       (case find (\<lambda>s. truthy (enabled s) \<and> matchesKeyCombo ?d (keyCombo s))
               (hook_getAllShortcuts (shortcuts ex_mixed)) of
        None \<Rightarrow> (Return (), ?d, ex_mixed)
      | Some s \<Rightarrow>
          (Return (), ?d\<lparr>defaultPrevented := True, propagationStopped := True\<rparr>,
           (case ex_call (action s) ex_mixed of
              (Return u, st') \<Rightarrow> st'
            | (Throw x, st') \<Rightarrow>
                console_error (''Error executing shortcut '' @ name s @ '':'') x st')))"
    by blast
  then have 4: "handleKeyDown ex_call (shortcuts ex_mixed) ?d ex_mixed =
     (Return (), (keydown ''d'')\<lparr>ev_ctrlKey := True\<rparr>, ex_mixed)"
    by (simp only: disabled)
  from mixed_b guard(3) have
    "handleKeyDown ex_call (shortcuts ex_mixed) ?b ex_mixed =
       (case find (\<lambda>s. truthy (enabled s) \<and> matchesKeyCombo ?b (keyCombo s))
               (hook_getAllShortcuts (shortcuts ex_mixed)) of
        None \<Rightarrow> (Return (), ?b, ex_mixed)
      | Some s \<Rightarrow>
          (Return (), ?b\<lparr>defaultPrevented := True, propagationStopped := True\<rparr>,
           (case ex_call (action s) ex_mixed of
              (Return u, st') \<Rightarrow> st'
            | (Throw x, st') \<Rightarrow>
                console_error (''Error executing shortcut '' @ name s @ '':'') x st')))"
    by blast
  then have 5: "handleKeyDown ex_call (shortcuts ex_mixed) ?b ex_mixed =
     (Return (),
      (keydown ''b'')\<lparr>ev_ctrlKey := True, defaultPrevented := True, propagationStopped := True\<rparr>,
      ex_mixed\<lparr>console := [(''Error executing shortcut boom:'', ''boom'')],
               app := [''boom'']\<rparr>)"
    by (simp only: throwing)
  from guard(1) clean snapshot 1 scanned found other least 2 3 4 5 show ?thesis
    by (intro conjI)
qed

text \<open>
  Claim C1 as stated fails: with the orders 2, \<open>NaN\<close> and 1 the sequence that the handler
  scans is not ordered, and \<open>Ctrl+A\<close> runs the entry of order 2 although the entry of
  order 1 is enabled and matches the key press as well.
\<close>

theorem handleKeyDown_order_counterexample:
  "map order (hook_getAllShortcuts (shortcuts ex_nan)) =
     [Some (Finite 2), Some NaN, Some (Finite 1)] \<and>
   map name (hook_getAllShortcuts (shortcuts ex_nan)) = [''two'', ''nan'', ''one''] \<and>
   map (truthy \<circ> enabled) (hook_getAllShortcuts (shortcuts ex_nan)) = [True, True, True] \<and>
   map (matchesKeyCombo ((keydown ''a'')\<lparr>ev_ctrlKey := True\<rparr>) \<circ> keyCombo)
     (hook_getAllShortcuts (shortcuts ex_nan)) = [True, True, True] \<and>
   handleKeyDown ex_call (shortcuts ex_nan) ((keydown ''a'')\<lparr>ev_ctrlKey := True\<rparr>) ex_nan =
     (Return (),
      (keydown ''a'')\<lparr>ev_ctrlKey := True, defaultPrevented := True, propagationStopped := True\<rparr>,
      ex_nan\<lparr>app := [''two'']\<rparr>)"
  by code_simp

text \<open>
  Claim C7. The guard of the handler tests the target's \<open>contentEditable\<close> property for
  the value \<open>'true'\<close> alone. A key press in an element whose \<open>contentEditable\<close> is
  \<open>'plaintext-only'\<close>, where the user is typing text, passes the guard: \<open>Ctrl+A\<close> there
  runs the action registered for it and has its default prevented and its propagation
  stopped.
\<close>

theorem handleKeyDown_plaintext_only_fires:
  "contentEditable (ev_target ex_plaintext_keydown) = Some ''plaintext-only'' \<and>
   instance_of (ev_target ex_plaintext_keydown) = OtherTarget \<and>
   handleKeyDown ex_call (shortcuts ex_conflict) ex_plaintext_keydown ex_conflict =
     (Return (),
      ex_plaintext_keydown\<lparr>defaultPrevented := True, propagationStopped := True\<rparr>,
      ex_conflict\<lparr>app := [''action1'']\<rparr>)"
  by code_simp

section \<open>Lookups and direct execution\<close>

lemma executeShortcut_returns:
  "\<exists>b st'. executeShortcut call c n st = (Return b, st')"
  by (auto simp: executeShortcut_def split: option.splits prod.splits completion.splits)

lemma getShortcuts_unknown:
  "get_property (shortcuts st) c = Undefined \<Longrightarrow> getShortcuts c st = ArrayValue []"
  by (simp add: getShortcuts_def ToBoolean_def)

lemma unknown_category:
  assumes "Map_get (shortcutsRegistry st) c = None"
  shows "\<not> hasShortcut c n st" "unregisterShortcut c n st = st" "clearShortcuts c st = st"
    "executeShortcut call c n st = (Return False, st)"
  using assms
  by (simp_all add: hasShortcut_def unregisterShortcut_def clearShortcuts_def executeShortcut_def)

lemma unknown_name:
  assumes "Map_get (shortcutsRegistry st) c = Some registry" "Map_get registry n = None"
  shows "\<not> hasShortcut c n st" "executeShortcut call c n st = (Return False, st)"
    "unregisterShortcut c n st =
       (if registry = [] then st\<lparr>shortcutsRegistry := Map_delete c (shortcutsRegistry st)\<rparr>
        else st)"
proof -
  show "\<not> hasShortcut c n st" "executeShortcut call c n st = (Return False, st)"
    using assms by (simp_all add: hasShortcut_def executeShortcut_def)
  have "n \<notin> fst ` set registry"
    using assms(2) by (simp add: map_of_eq_None_iff)
  then have d: "Map_delete n registry = registry"
    by (rule delete_id)
  have u: "Map_set c registry (shortcutsRegistry st) = shortcutsRegistry st"
    using assms(1) by (rule update_triv)
  show "unregisterShortcut c n st =
       (if registry = [] then st\<lparr>shortcutsRegistry := Map_delete c (shortcutsRegistry st)\<rparr>
        else st)"
    using assms by (simp add: unregisterShortcut_def d u Let_def delete_update_same)
qed

lemma executeShortcut_disabled:
  assumes "Map_get (shortcutsRegistry st) c = Some registry" "Map_get registry n = Some s"
    "\<not> truthy (enabled s)"
  shows "executeShortcut call c n st = (Return False, st)"
  using assms by (simp add: executeShortcut_def)

lemma executeShortcut_enabled:
  assumes "Map_get (shortcutsRegistry st) c = Some registry" "Map_get registry n = Some s"
    "truthy (enabled s)"
  shows "executeShortcut call c n st =
     (case call (action s) st of
        (Return u, st') \<Rightarrow> (Return True, st')
      | (Throw x, st') \<Rightarrow>
          (Return False,
           console_error (''Error executing shortcut '' @ c @ '':'' @ n @ '':'') x st'))"
  using assms by (simp add: executeShortcut_def)


text \<open>
  Claim C8. \<open>getShortcuts\<close> reads the category as a property of the snapshot, a plain
  object, so a name that the object inherits is found although no such category exists:
  on the initial store \<open>getShortcuts('constructor')\<close> and \<open>getShortcuts('toString')\<close>
  return an inherited function, not the empty sequence that a category without entries
  gives.
\<close>

theorem getShortcuts_inherited_name:
  "getShortcuts ''constructor'' (initial_state [] :: (ex_action, string, string list) state) =
     Inherited \<and>
   getShortcuts ''toString'' (initial_state [] :: (ex_action, string, string list) state) =
     Inherited \<and>
   \<not> hasShortcut ''constructor'' ''ok''
     (initial_state [] :: (ex_action, string, string list) state) \<and>
   getShortcuts ''missing'' (initial_state [] :: (ex_action, string, string list) state) =
     ArrayValue []"
  by code_simp

text \<open>
  Claim C10, as amended. When the entry exists and is enabled and its action throws,
  leaving the state \<open>st'\<close>, \<open>executeShortcut\<close> returns \<open>false\<close>, the value it also
  returns for an entry that is absent or disabled. The state after the call is \<open>st'\<close>
  with one console line added: \<open>executeShortcut\<close> itself writes nothing to the registry
  map, the snapshot, the version or the timer, so they are what the action left, and
  where the action has left them as they were, they are after the call what they were
  before it.
\<close>

theorem executeShortcut_action_throws:
  assumes "Map_get (shortcutsRegistry st) c = Some registry"
    and "Map_get registry n = Some s"
    and "truthy (enabled s)"
    and "call (action s) st = (Throw x, st')"
  shows "fst (executeShortcut call c n st) = Return False \<and>
    snd (executeShortcut call c n st) =
      console_error (''Error executing shortcut '' @ c @ '':'' @ n @ '':'') x st' \<and>
    shortcutsRegistry (snd (executeShortcut call c n st)) = shortcutsRegistry st' \<and>
    shortcuts (snd (executeShortcut call c n st)) = shortcuts st' \<and>
    version (snd (executeShortcut call c n st)) = version st' \<and>
    updateTimer (snd (executeShortcut call c n st)) = updateTimer st' \<and>
    timers (snd (executeShortcut call c n st)) = timers st' \<and>
    (shortcutsRegistry st' = shortcutsRegistry st \<and> shortcuts st' = shortcuts st \<and>
     version st' = version st \<longrightarrow>
       shortcutsRegistry (snd (executeShortcut call c n st)) = shortcutsRegistry st \<and>
       shortcuts (snd (executeShortcut call c n st)) = shortcuts st \<and>
       version (snd (executeShortcut call c n st)) = version st) \<and>
    (\<not> hasShortcut c2 n2 st \<longrightarrow>
       fst (executeShortcut call c2 n2 st) = fst (executeShortcut call c n st)) \<and>
    (Map_get (shortcutsRegistry st) c3 = Some registry3 \<and> Map_get registry3 n3 = Some s3 \<and>
     \<not> truthy (enabled s3) \<longrightarrow>
       fst (executeShortcut call c3 n3 st) = fst (executeShortcut call c n st))"
proof -
  have run: "executeShortcut call c n st =
      (Return False, console_error (''Error executing shortcut '' @ c @ '':'' @ n @ '':'') x st')"
    using assms by (simp add: executeShortcut_enabled)
  have absent: "fst (executeShortcut call c2 n2 st) = Return False"
    if "\<not> hasShortcut c2 n2 st"
    using that by (auto simp: hasShortcut_def executeShortcut_def split: option.splits)
  have disabled: "fst (executeShortcut call c3 n3 st) = Return False"
    if "Map_get (shortcutsRegistry st) c3 = Some registry3" "Map_get registry3 n3 = Some s3"
      "\<not> truthy (enabled s3)"
    using that by (simp add: executeShortcut_disabled)
  show ?thesis
    unfolding run using absent disabled by (simp add: console_error_def)
qed

theorem executeShortcut_action_throws_witness:
  "executeShortcut ex_call ''tools'' ''boom'' ex_mixed =
     (Return False,
      ex_mixed\<lparr>console := [(''Error executing shortcut tools:boom:'', ''boom'')],
               app := [''boom'']\<rparr>) \<and>
   shortcutsRegistry (snd (executeShortcut ex_call ''tools'' ''boom'' ex_mixed)) =
     shortcutsRegistry ex_mixed \<and>
   shortcuts (snd (executeShortcut ex_call ''tools'' ''boom'' ex_mixed)) = shortcuts ex_mixed \<and>
   version (snd (executeShortcut ex_call ''tools'' ''boom'' ex_mixed)) = version ex_mixed \<and>
   fst (executeShortcut ex_call ''missing'' ''boom'' ex_mixed) =
     fst (executeShortcut ex_call ''tools'' ''boom'' ex_mixed) \<and>
   fst (executeShortcut ex_call ''tools'' ''off'' ex_mixed) =
     fst (executeShortcut ex_call ''tools'' ''boom'' ex_mixed)"
proof -
  let ?reg = "shortcutsRegistry ex_mixed"
  let ?tools = "the (Map_get ?reg ''tools'')"
  let ?off = "the (Map_get ?tools ''off'')"
  let ?boom = "the (Map_get ?tools ''boom'')"
  let ?st' = "ex_mixed\<lparr>app := [''boom'']\<rparr>"
  have tools: "Map_get ?reg ''tools'' = Some ?tools"
    by code_simp
  have boom: "Map_get ?tools ''boom'' = Some ?boom" "truthy (enabled ?boom)"
    by code_simp+
  have off: "Map_get ?tools ''off'' = Some ?off" "\<not> truthy (enabled ?off)"
    by code_simp+
  have missing: "\<not> hasShortcut ''missing'' ''boom'' ex_mixed"
    by code_simp
  have "action ?boom = Fail ''boom''" "app ex_mixed = []"
    by code_simp+
  then have thrown: "ex_call (action ?boom) ex_mixed = (Throw ''boom'', ?st')"
    by simp
  have console: "console ex_mixed = []"
    by code_simp
  have frame: "shortcutsRegistry ?st' = shortcutsRegistry ex_mixed \<and>
     shortcuts ?st' = shortcuts ex_mixed \<and> version ?st' = version ex_mixed"
    by simp
  note fact =
    executeShortcut_action_throws
      [where call = ex_call and st = ex_mixed and ?c2.0 = "''missing''" and ?n2.0 = "''boom''"
         and ?c3.0 = "''tools''" and ?n3.0 = "''off''" and ?registry3.0 = ?tools
         and ?s3.0 = ?off,
       OF tools boom thrown]
  from fact have "fst (executeShortcut ex_call ''tools'' ''boom'' ex_mixed) = Return False"
    "snd (executeShortcut ex_call ''tools'' ''boom'' ex_mixed) =
       console_error (''Error executing shortcut '' @ ''tools'' @ '':'' @ ''boom'' @ '':'')
         ''boom'' ?st'"
    by blast+
  then have 1: "executeShortcut ex_call ''tools'' ''boom'' ex_mixed =
     (Return False,
      ex_mixed\<lparr>console := [(''Error executing shortcut tools:boom:'', ''boom'')],
               app := [''boom'']\<rparr>)"
    by (simp add: prod_eq_iff console_error_def console)
  from fact frame have 2:
    "shortcutsRegistry (snd (executeShortcut ex_call ''tools'' ''boom'' ex_mixed)) =
       shortcutsRegistry ex_mixed"
    "shortcuts (snd (executeShortcut ex_call ''tools'' ''boom'' ex_mixed)) = shortcuts ex_mixed"
    "version (snd (executeShortcut ex_call ''tools'' ''boom'' ex_mixed)) = version ex_mixed"
    by blast+
  from fact missing have 3: "fst (executeShortcut ex_call ''missing'' ''boom'' ex_mixed) =
     fst (executeShortcut ex_call ''tools'' ''boom'' ex_mixed)"
    by blast
  from fact tools off have 4: "fst (executeShortcut ex_call ''tools'' ''off'' ex_mixed) =
     fst (executeShortcut ex_call ''tools'' ''boom'' ex_mixed)"
    by blast
  from 1 2 3 4 show ?thesis
    by (intro conjI)
qed

text \<open>
  Claim C10 as stated fails: an enabled entry whose action unregisters the entry and then
  throws gives \<open>false\<close>, and the registry has lost the entry by the call.
\<close>

theorem executeShortcut_registry_changed_counterexample:
  "hasShortcut ''tools'' ''self'' ex_reentrant \<and>
   fst (executeShortcut ex_call ''tools'' ''self'' ex_reentrant) = Return False \<and>
   \<not> hasShortcut ''tools'' ''self'' (snd (executeShortcut ex_call ''tools'' ''self'' ex_reentrant)) \<and>
   map fst (shortcutsRegistry ex_reentrant) = [''tools''] \<and>
   map (map fst \<circ> snd) (shortcutsRegistry ex_reentrant) = [[''self'', ''keep'']] \<and>
   map (map fst \<circ> snd)
     (shortcutsRegistry (snd (executeShortcut ex_call ''tools'' ''self'' ex_reentrant))) =
     [[''keep'']]"
  by code_simp

section \<open>Registration and lookup\<close>

lemma registry_registerShortcut:
  "shortcutsRegistry (registerShortcut c n k a d en ord st) =
     Map_set c
       (Map_set n
          \<lparr>name = n, keyCombo = k, description = d, action = a, category = c,
           enabled = Some (case en of None \<Rightarrow> True | Some b \<Rightarrow> b), order = ord\<rparr>
          (case Map_get (shortcutsRegistry st) c of None \<Rightarrow> [] | Some m \<Rightarrow> m))
       (shortcutsRegistry st)"
  by (auto simp: registerShortcut_def initRegistry_def debouncedUpdateRegistry_def
      setTimeout_def clearTimeout_def Let_def update_conv' split: option.splits)

lemma timer_registerShortcut:
  "updateTimer (registerShortcut c n k a d en ord st) = Some (Suc (timerSeq st))"
  "Suc (timerSeq st) \<in> set (timers (registerShortcut c n k a d en ord st))"
  "shortcuts (registerShortcut c n k a d en ord st) = shortcuts st"
  by (auto simp: registerShortcut_def initRegistry_def debouncedUpdateRegistry_def
      setTimeout_def clearTimeout_def Let_def split: option.splits)

lemma timerFires_pending:
  assumes "t \<in> set (timers st)"
  shows "getShortcuts c (timerFires t st) = getShortcuts c (updateRegistry st)"
  using assms
  by (simp add: timerFires_def clearTimeout_def getShortcuts_def updateRegistry_def
      setShortcuts_def incrementVersion_def Let_def)

lemma in_update: "(k, v) \<in> set (AList.update k v al)"
  by (induction al) auto

lemma Map_ok_update: "Map_ok m \<Longrightarrow> Map_ok (Map_set k v m)"
  by (simp add: Map_ok_def distinct_update)

lemma Map_ok_delete: "Map_ok m \<Longrightarrow> Map_ok (Map_delete k m)"
  by (simp add: Map_ok_def distinct_delete)

lemma hasShortcut_registerShortcut: "hasShortcut c n (registerShortcut c n k a d en ord st)"
  by (simp add: hasShortcut_def registry_registerShortcut update_conv')

lemma registered_in_snapshot:
  assumes "Map_ok (shortcutsRegistry st)"
  shows "\<exists>xs. getShortcuts c
             (timerFires (Suc (timerSeq st)) (registerShortcut c n k a d en ord st)) =
             ArrayValue xs \<and>
           \<lparr>name = n, keyCombo = k, description = d, action = a, category = c,
            enabled = Some (case en of None \<Rightarrow> True | Some b \<Rightarrow> b), order = ord\<rparr>
           \<in> set xs"
proof -
  let ?entry = "\<lparr>name = n, keyCombo = k, description = d, action = a, category = c,
          enabled = Some (case en of None \<Rightarrow> True | Some b \<Rightarrow> b), order = ord\<rparr>"
  let ?old = "case Map_get (shortcutsRegistry st) c of None \<Rightarrow> [] | Some m \<Rightarrow> m"
  let ?st1 = "registerShortcut c n k a d en ord st"
  have ok: "Map_ok (shortcutsRegistry ?st1)"
    using assms by (simp add: registry_registerShortcut Map_ok_update)
  have there: "Map_get (shortcutsRegistry ?st1) c = Some (Map_set n ?entry ?old)"
    by (simp add: registry_registerShortcut update_conv')
  have "getShortcuts c (timerFires (Suc (timerSeq st)) ?st1) =
      ArrayValue (Array_sort compareOrder (Map_values (Map_set n ?entry ?old)))"
    by (simp add: timerFires_pending timer_registerShortcut
        getShortcuts_updateRegistry [OF ok there])
  moreover have "?entry \<in> set (Map_values (Map_set n ?entry ?old))"
    using in_update [of n ?entry ?old] by force
  then have "?entry \<in> set (Array_sort compareOrder (Map_values (Map_set n ?entry ?old)))"
    by (simp only: set_Array_sort)
  ultimately show ?thesis
    by blast
qed

lemma registry_debouncedUpdateRegistry:
  "shortcutsRegistry (debouncedUpdateRegistry st) = shortcutsRegistry st"
  by (simp add: debouncedUpdateRegistry_def setTimeout_def clearTimeout_def Let_def
      split: option.splits)

lemma hasShortcut_unregisterShortcut: "\<not> hasShortcut c n (unregisterShortcut c n st)"
proof (cases "Map_get (shortcutsRegistry st) c")
  case None
  then show ?thesis
    by (simp add: hasShortcut_def unregisterShortcut_def)
next
  case (Some registry)
  have gone: "Map_get (Map_delete n registry) n = None"
    by (simp add: delete_conv')
  show ?thesis
    using Some gone
    by (auto simp: hasShortcut_def unregisterShortcut_def Let_def
        registry_debouncedUpdateRegistry update_conv' delete_conv' split: option.splits)
qed

lemma Map_ok_initial_state: "Map_ok (shortcutsRegistry (initial_state w))"
  by (simp add: initial_state_def Map_ok_def)

lemma Map_ok_registerShortcut:
  "Map_ok (shortcutsRegistry st) \<Longrightarrow>
   Map_ok (shortcutsRegistry (registerShortcut c n k a d en ord st))"
  by (simp add: registry_registerShortcut Map_ok_update)

lemma Map_ok_unregisterShortcut:
  "Map_ok (shortcutsRegistry st) \<Longrightarrow> Map_ok (shortcutsRegistry (unregisterShortcut c n st))"
  by (auto simp: unregisterShortcut_def Let_def registry_debouncedUpdateRegistry Map_ok_update
      Map_ok_delete split: option.splits)

lemma Map_ok_clearShortcuts:
  "Map_ok (shortcutsRegistry st) \<Longrightarrow> Map_ok (shortcutsRegistry (clearShortcuts c st))"
  by (simp add: clearShortcuts_def registry_debouncedUpdateRegistry Map_ok_delete)

lemma registry_timerFires: "shortcutsRegistry (timerFires t st) = shortcutsRegistry st"
  by (simp add: timerFires_def updateRegistry_def clearTimeout_def setShortcuts_def
      incrementVersion_def Let_def)

text \<open>
  Claim C4, as amended. Right after \<open>registerShortcut(category, name, ...)\<close>,
  \<open>hasShortcut(category, name)\<close> is true, while \<open>getShortcuts\<close> still returns what it
  returned before the call: the registration only schedules the recomputation of the
  snapshot (the timeout it sets is pending). Once that timeout has run,
  \<open>getShortcuts(category)\<close> returns an array and the new entry is in it. After
  \<open>unregisterShortcut(category, name)\<close>, \<open>hasShortcut(category, name)\<close> is false.
\<close>

theorem register_then_lookup:
  "hasShortcut c n (registerShortcut c n k a d en ord st) \<and>
   getShortcuts c' (registerShortcut c n k a d en ord st) = getShortcuts c' st \<and>
   updateTimer (registerShortcut c n k a d en ord st) = Some (Suc (timerSeq st)) \<and>
   Suc (timerSeq st) \<in> set (timers (registerShortcut c n k a d en ord st)) \<and>
   (Map_ok (shortcutsRegistry st) \<longrightarrow>
      (\<exists>xs. getShortcuts c
               (timerFires (Suc (timerSeq st)) (registerShortcut c n k a d en ord st)) =
               ArrayValue xs \<and>
             \<lparr>name = n, keyCombo = k, description = d, action = a, category = c,
              enabled = Some (case en of None \<Rightarrow> True | Some b \<Rightarrow> b), order = ord\<rparr>
             \<in> set xs)) \<and>
   \<not> hasShortcut c n (unregisterShortcut c n st)"
proof (intro conjI impI)
  show "hasShortcut c n (registerShortcut c n k a d en ord st)"
    by (rule hasShortcut_registerShortcut)
  show "getShortcuts c' (registerShortcut c n k a d en ord st) = getShortcuts c' st"
    by (simp add: getShortcuts_def timer_registerShortcut)
  show "updateTimer (registerShortcut c n k a d en ord st) = Some (Suc (timerSeq st))"
    "Suc (timerSeq st) \<in> set (timers (registerShortcut c n k a d en ord st))"
    by (rule timer_registerShortcut)+
  show "\<exists>xs. getShortcuts c
               (timerFires (Suc (timerSeq st)) (registerShortcut c n k a d en ord st)) =
               ArrayValue xs \<and>
             \<lparr>name = n, keyCombo = k, description = d, action = a, category = c,
              enabled = Some (case en of None \<Rightarrow> True | Some b \<Rightarrow> b), order = ord\<rparr>
             \<in> set xs"
    if "Map_ok (shortcutsRegistry st)"
    using that by (rule registered_in_snapshot)
  show "\<not> hasShortcut c n (unregisterShortcut c n st)"
    by (rule hasShortcut_unregisterShortcut)
qed

theorem register_then_lookup_witness:
  "Map_ok (shortcutsRegistry (initial_state [] :: (ex_action, string, string list) state)) \<and>
   hasShortcut ''nav'' ''next''
     (registerShortcut ''nav'' ''next'' ''ArrowDown'' (Note ''next'') ''desc'' None None
        (initial_state [] :: (ex_action, string, string list) state)) \<and>
   (\<exists>xs. getShortcuts ''nav''
           (timerFires 1
              (registerShortcut ''nav'' ''next'' ''ArrowDown'' (Note ''next'') ''desc'' None
                 None (initial_state [] :: (ex_action, string, string list) state))) =
           ArrayValue xs \<and>
         \<lparr>name = ''next'', keyCombo = ''ArrowDown'', description = ''desc'',
          action = Note ''next'', category = ''nav'', enabled = Some True, order = None\<rparr>
         \<in> set xs) \<and>
   getShortcuts ''nav''
     (timerFires 1
        (registerShortcut ''nav'' ''next'' ''ArrowDown'' (Note ''next'') ''desc'' None
           None (initial_state [] :: (ex_action, string, string list) state))) =
     ArrayValue
       [\<lparr>name = ''next'', keyCombo = ''ArrowDown'', description = ''desc'',
         action = Note ''next'', category = ''nav'', enabled = Some True, order = None\<rparr>] \<and>
   \<not> hasShortcut ''nav'' ''next'' (unregisterShortcut ''nav'' ''next'' ex_two_categories)"
proof -
  let ?st = "initial_state [] :: (ex_action, string, string list) state"
  have ok: "Map_ok (shortcutsRegistry ?st)"
    by (rule Map_ok_initial_state)
  have seq: "Suc (timerSeq ?st) = 1"
    by (simp add: initial_state_def)
  note fact =
    register_then_lookup
      [where c = "''nav''" and n = "''next''" and k = "''ArrowDown''" and a = "Note ''next''"
         and d = "''desc''" and en = None and ord = None and st = ?st]
  from fact have 1:
    "hasShortcut ''nav'' ''next''
       (registerShortcut ''nav'' ''next'' ''ArrowDown'' (Note ''next'') ''desc'' None None ?st)"
    by blast
  from fact ok have
    "\<exists>xs. getShortcuts ''nav''
           (timerFires (Suc (timerSeq ?st))
              (registerShortcut ''nav'' ''next'' ''ArrowDown'' (Note ''next'') ''desc'' None
                 None ?st)) =
           ArrayValue xs \<and>
         \<lparr>name = ''next'', keyCombo = ''ArrowDown'', description = ''desc'',
          action = Note ''next'', category = ''nav'',
          enabled = Some (case None of None \<Rightarrow> True | Some b \<Rightarrow> b), order = None\<rparr>
         \<in> set xs"
    by blast
  then have 2:
    "\<exists>xs. getShortcuts ''nav''
           (timerFires 1
              (registerShortcut ''nav'' ''next'' ''ArrowDown'' (Note ''next'') ''desc'' None
                 None ?st)) =
           ArrayValue xs \<and>
         \<lparr>name = ''next'', keyCombo = ''ArrowDown'', description = ''desc'',
          action = Note ''next'', category = ''nav'', enabled = Some True, order = None\<rparr>
         \<in> set xs"
    unfolding seq by simp
  have 3:
    "getShortcuts ''nav''
       (timerFires 1
          (registerShortcut ''nav'' ''next'' ''ArrowDown'' (Note ''next'') ''desc'' None
             None ?st)) =
     ArrayValue
       [\<lparr>name = ''next'', keyCombo = ''ArrowDown'', description = ''desc'',
         action = Note ''next'', category = ''nav'', enabled = Some True, order = None\<rparr>]"
    by code_simp
  from register_then_lookup [where c = "''nav''" and n = "''next''" and st = ex_two_categories]
  have 4: "\<not> hasShortcut ''nav'' ''next'' (unregisterShortcut ''nav'' ''next'' ex_two_categories)"
    by blast
  from ok 1 2 3 4 show ?thesis
    by (intro conjI)
qed

text \<open>
  Claim C4 as stated fails: right after the first registration of \<open>("nav", "next")\<close>,
  \<open>hasShortcut\<close> is true but \<open>getShortcuts("nav")\<close> is empty.
\<close>

theorem register_then_getShortcuts_counterexample:
  "hasShortcut ''nav'' ''next''
     (registerShortcut ''nav'' ''next'' ''ArrowDown'' (Note ''next'') ''desc'' None None
        (initial_state [] :: (ex_action, string, string list) state)) \<and>
   getShortcuts ''nav''
     (registerShortcut ''nav'' ''next'' ''ArrowDown'' (Note ''next'') ''desc'' None None
        (initial_state [] :: (ex_action, string, string list) state)) = ArrayValue []"
  by code_simp

section \<open>The flattened, ordered sequence\<close>

lemma example_two_categories: "map name (getAllShortcuts ex_two_categories) = [''next'', ''del'']"
  by code_simp

lemma getAllShortcuts_clean:
  assumes "list_all (\<lambda>x. order x \<noteq> Some NaN) (concat (Object_values (shortcuts st)))"
  shows "sorted_wrt (\<lambda>a b. number_le (orderOrMax a) (orderOrMax b)) (getAllShortcuts st)"
    and "filter (\<lambda>x. orderOrMax x = w) (getAllShortcuts st) =
      filter (\<lambda>x. orderOrMax x = w) (concat (Object_values (shortcuts st)))"
  using sorted_Array_sort [OF assms] stable_Array_sort [OF assms]
  by (simp_all add: getAllShortcuts_def)

lemma sorted_behind_undefined:
  assumes "sorted_wrt (\<lambda>a b. number_le (orderOrMax a) (orderOrMax b)) ys"
    and "i < j" "j < length ys" "order (ys ! i) = None" "order (ys ! j) = Some v"
  shows "number_le MAX_SAFE_INTEGER v"
proof -
  from assms(1-3) have "number_le (orderOrMax (ys ! i)) (orderOrMax (ys ! j))"
    by (simp add: sorted_wrt_iff_nth_less)
  with assms(4,5) show ?thesis
    by (simp add: orderOrMax_def)
qed

lemma sorted_before_undefined:
  assumes "sorted_wrt (\<lambda>a b. number_le (orderOrMax a) (orderOrMax b)) ys"
    and "i < j" "j < length ys" "order (ys ! i) = Some v" "order (ys ! j) = None"
  shows "number_le v MAX_SAFE_INTEGER"
proof -
  from assms(1-3) have "number_le (orderOrMax (ys ! i)) (orderOrMax (ys ! j))"
    by (simp add: sorted_wrt_iff_nth_less)
  with assms(4,5) show ?thesis
    by (simp add: orderOrMax_def)
qed

text \<open>
  Claim C3, as amended. \<open>getAllShortcuts()\<close> returns the entries of the categories that
  are own properties of the snapshot: after a recomputation these are the entries of every
  registered category but one named \<open>__proto__\<close>. When no order among them is \<open>NaN\<close>, the
  sequence is ascending by order, an entry without an order counting as
  \<open>Number.MAX_SAFE_INTEGER\<close>: what is listed behind an entry without an order has no order
  or an order of at least that number, and what is listed in front of one has no order or
  an order of at most that number. Entries of equal rank keep the sequence they have in the
  snapshot, categories in their enumeration order and, in a category, in the insertion
  order of the registry map (the snapshot of a category is the stable sort of the map's
  values). The result depends on the snapshot only, so calls with no recomputation between
  them return the same sequence. After \<open>("nav", "next")\<close> and then \<open>("edit", "del")\<close> are
  registered without an order and the pending timeout has run, it lists \<open>next\<close> before
  \<open>del\<close>.
\<close>

theorem getAllShortcuts_sorted:
  "mset (getAllShortcuts st) = mset (concat (Object_values (shortcuts st))) \<and>
   (map_of (own (shortcuts st)) c = Some xs \<longrightarrow> set xs \<subseteq> set (getAllShortcuts st)) \<and>
   (list_all (\<lambda>x. order x \<noteq> Some NaN) (concat (Object_values (shortcuts st))) \<longrightarrow>
      sorted_wrt (\<lambda>a b. number_le (orderOrMax a) (orderOrMax b)) (getAllShortcuts st) \<and>
      (i < j \<and> j < length (getAllShortcuts st) \<and> order (getAllShortcuts st ! i) = None \<and>
       order (getAllShortcuts st ! j) = Some v \<longrightarrow> number_le MAX_SAFE_INTEGER v) \<and>
      (i < j \<and> j < length (getAllShortcuts st) \<and> order (getAllShortcuts st ! i) = Some v \<and>
       order (getAllShortcuts st ! j) = None \<longrightarrow> number_le v MAX_SAFE_INTEGER) \<and>
      filter (\<lambda>x. orderOrMax x = w) (getAllShortcuts st) =
        filter (\<lambda>x. orderOrMax x = w) (concat (Object_values (shortcuts st)))) \<and>
   (shortcuts st' = shortcuts st \<longrightarrow> getAllShortcuts st' = getAllShortcuts st) \<and>
   (Map_ok (shortcutsRegistry st) \<and> Map_get (shortcutsRegistry st) c = Some m \<longrightarrow>
      getShortcuts c (updateRegistry st) = ArrayValue (Array_sort compareOrder (Map_values m)) \<and>
      (c \<noteq> ''__proto__'' \<longrightarrow>
         set (Map_values m) \<subseteq> set (getAllShortcuts (updateRegistry st))) \<and>
      (list_all (\<lambda>x. order x \<noteq> Some NaN) (Map_values m) \<longrightarrow>
         sorted_wrt (\<lambda>a b. number_le (orderOrMax a) (orderOrMax b))
           (Array_sort compareOrder (Map_values m)) \<and>
         filter (\<lambda>x. orderOrMax x = w) (Array_sort compareOrder (Map_values m)) =
           filter (\<lambda>x. orderOrMax x = w) (Map_values m))) \<and>
   map name (getAllShortcuts ex_two_categories) = [''next'', ''del'']"
proof (intro conjI impI; (elim conjE)?)
  show "mset (getAllShortcuts st) = mset (concat (Object_values (shortcuts st)))"
    by (simp add: getAllShortcuts_def mset_Array_sort)
  show "set xs \<subseteq> set (getAllShortcuts st)" if "map_of (own (shortcuts st)) c = Some xs"
    using own_in_flat [OF that] by (simp add: getAllShortcuts_def set_Array_sort)
  show "getAllShortcuts st' = getAllShortcuts st" if "shortcuts st' = shortcuts st"
    using that by (simp add: getAllShortcuts_def)
  show "map name (getAllShortcuts ex_two_categories) = [''next'', ''del'']"
    by (rule example_two_categories)
next
  assume clean: "list_all (\<lambda>x. order x \<noteq> Some NaN) (concat (Object_values (shortcuts st)))"
  show sorted: "sorted_wrt (\<lambda>a b. number_le (orderOrMax a) (orderOrMax b)) (getAllShortcuts st)"
    using clean by (rule getAllShortcuts_clean)
  show "filter (\<lambda>x. orderOrMax x = w) (getAllShortcuts st) =
        filter (\<lambda>x. orderOrMax x = w) (concat (Object_values (shortcuts st)))"
    using clean by (rule getAllShortcuts_clean)
  show "number_le MAX_SAFE_INTEGER v"
    if "i < j" "j < length (getAllShortcuts st)" "order (getAllShortcuts st ! i) = None"
      "order (getAllShortcuts st ! j) = Some v"
    using sorted that by (rule sorted_behind_undefined)
  show "number_le v MAX_SAFE_INTEGER"
    if "i < j" "j < length (getAllShortcuts st)" "order (getAllShortcuts st ! i) = Some v"
      "order (getAllShortcuts st ! j) = None"
    using sorted that by (rule sorted_before_undefined)
next
  assume reg: "Map_ok (shortcutsRegistry st)" "Map_get (shortcutsRegistry st) c = Some m"
  show "getShortcuts c (updateRegistry st) =
      ArrayValue (Array_sort compareOrder (Map_values m))"
    using reg by (rule getShortcuts_updateRegistry)
  show "set (Map_values m) \<subseteq> set (getAllShortcuts (updateRegistry st))"
    if "c \<noteq> ''__proto__''"
    using reg that by (rule registered_in_all)
  show "sorted_wrt (\<lambda>a b. number_le (orderOrMax a) (orderOrMax b))
           (Array_sort compareOrder (Map_values m))"
    if "list_all (\<lambda>x. order x \<noteq> Some NaN) (Map_values m)"
    using that by (rule sorted_Array_sort)
  show "filter (\<lambda>x. orderOrMax x = w) (Array_sort compareOrder (Map_values m)) =
           filter (\<lambda>x. orderOrMax x = w) (Map_values m)"
    if "list_all (\<lambda>x. order x \<noteq> Some NaN) (Map_values m)"
    using that by (rule stable_Array_sort)
qed

theorem getAllShortcuts_sorted_witness:
  "map name (getAllShortcuts ex_two_categories) = [''next'', ''del''] \<and>
   map name (getAllShortcuts ex_ordered) = [''fit'', ''zoom'', ''grid''] \<and>
   map order (getAllShortcuts ex_ordered) = [Some (Finite 5), Some (Finite 20), None] \<and>
   list_all (\<lambda>x. order x \<noteq> Some NaN) (concat (Object_values (shortcuts ex_ordered))) \<and>
   sorted_wrt (\<lambda>a b. number_le (orderOrMax a) (orderOrMax b)) (getAllShortcuts ex_ordered) \<and>
   number_le (Finite 20) MAX_SAFE_INTEGER \<and>
   map order (getAllShortcuts ex_large_order) = [None, Some (Finite 9007199254740992)] \<and>
   number_le MAX_SAFE_INTEGER (Finite 9007199254740992) \<and>
   Map_ok (shortcutsRegistry ex_ordered) \<and>
   map name (Map_values (the (Map_get (shortcutsRegistry ex_ordered) ''tools''))) =
     [''zoom'', ''grid''] \<and>
   getShortcuts ''tools'' (updateRegistry ex_ordered) =
     ArrayValue
       (Array_sort compareOrder
          (Map_values (the (Map_get (shortcutsRegistry ex_ordered) ''tools'')))) \<and>
   set (Map_values (the (Map_get (shortcutsRegistry ex_ordered) ''tools''))) \<subseteq>
     set (getAllShortcuts (updateRegistry ex_ordered)) \<and>
   list_all (\<lambda>x. order x \<noteq> Some NaN)
     (Map_values (the (Map_get (shortcutsRegistry ex_ordered) ''tools''))) \<and>
   sorted_wrt (\<lambda>a b. number_le (orderOrMax a) (orderOrMax b))
     (Array_sort compareOrder
        (Map_values (the (Map_get (shortcutsRegistry ex_ordered) ''tools'')))) \<and>
   set (the (map_of (own (shortcuts ex_ordered)) ''tools'')) \<subseteq>
     set (getAllShortcuts ex_ordered) \<and>
   getAllShortcuts (ex_ordered\<lparr>version := 7\<rparr>) = getAllShortcuts ex_ordered \<and>
   map name (getAllShortcuts ex_numeric) = [''second'', ''first'', ''third''] \<and>
   filter (\<lambda>x. orderOrMax x = MAX_SAFE_INTEGER) (getAllShortcuts ex_numeric) =
     filter (\<lambda>x. orderOrMax x = MAX_SAFE_INTEGER)
       (concat (Object_values (shortcuts ex_numeric)))"
proof -
  let ?all = "getAllShortcuts ex_ordered"
  let ?large = "getAllShortcuts ex_large_order"
  let ?tools = "the (Map_get (shortcutsRegistry ex_ordered) ''tools'')"
  let ?listed = "the (map_of (own (shortcuts ex_ordered)) ''tools'')"
  have names: "map name ?all = [''fit'', ''zoom'', ''grid'']"
    by code_simp
  have orders: "map order ?all = [Some (Finite 5), Some (Finite 20), None]"
    by code_simp
  have clean:
    "list_all (\<lambda>x. order x \<noteq> Some NaN) (concat (Object_values (shortcuts ex_ordered)))"
    "list_all (\<lambda>x. order x \<noteq> Some NaN) (concat (Object_values (shortcuts ex_large_order)))"
    "list_all (\<lambda>x. order x \<noteq> Some NaN) (concat (Object_values (shortcuts ex_numeric)))"
    by code_simp+
  have idx: "(1::nat) < 2" "2 < length ?all" "order (?all ! 1) = Some (Finite 20)"
    "order (?all ! 2) = None"
    by code_simp+
  have large: "map order ?large = [None, Some (Finite 9007199254740992)]"
    by code_simp
  have idx_large: "(0::nat) < 1" "1 < length ?large" "order (?large ! 0) = None"
    "order (?large ! 1) = Some (Finite 9007199254740992)"
    by code_simp+
  have ok: "Map_ok (shortcutsRegistry ex_ordered)"
    by code_simp
  have tools: "Map_get (shortcutsRegistry ex_ordered) ''tools'' = Some ?tools"
    by code_simp
  have tools_names: "map name (Map_values ?tools) = [''zoom'', ''grid'']"
    by code_simp
  have other: "''tools'' \<noteq> ''__proto__''"
    by simp
  have clean_tools: "list_all (\<lambda>x. order x \<noteq> Some NaN) (Map_values ?tools)"
    by code_simp
  have listed: "map_of (own (shortcuts ex_ordered)) ''tools'' = Some ?listed"
    by code_simp
  have same: "shortcuts (ex_ordered\<lparr>version := 7\<rparr>) = shortcuts ex_ordered"
    by simp
  note fact =
    getAllShortcuts_sorted
      [where st = ex_ordered and i = 1 and j = 2 and v = "Finite 20" and c = "''tools''"
         and m = ?tools and xs = ?listed and st' = "ex_ordered\<lparr>version := 7\<rparr>"]
  from fact have 1: "map name (getAllShortcuts ex_two_categories) = [''next'', ''del'']"
    by blast
  from fact clean(1) have 2:
    "sorted_wrt (\<lambda>a b. number_le (orderOrMax a) (orderOrMax b)) ?all"
    by blast
  from fact clean(1) idx have 3: "number_le (Finite 20) MAX_SAFE_INTEGER"
    by blast
  from getAllShortcuts_sorted
         [where st = ex_large_order and i = 0 and j = 1 and v = "Finite 9007199254740992"]
       clean(2) idx_large
  have 4: "number_le MAX_SAFE_INTEGER (Finite 9007199254740992)"
    by blast
  from fact ok tools
  have 5: "getShortcuts ''tools'' (updateRegistry ex_ordered) =
      ArrayValue (Array_sort compareOrder (Map_values ?tools))"
    by blast
  from fact ok tools other
  have 6: "set (Map_values ?tools) \<subseteq> set (getAllShortcuts (updateRegistry ex_ordered))"
    by blast
  from fact ok tools clean_tools
  have sorted_tools:
    "sorted_wrt (\<lambda>a b. number_le (orderOrMax a) (orderOrMax b))
       (Array_sort compareOrder (Map_values ?tools))"
    by blast
  from fact listed have 7: "set ?listed \<subseteq> set ?all"
    by blast
  from fact same have 8: "getAllShortcuts (ex_ordered\<lparr>version := 7\<rparr>) = ?all"
    by blast
  have 9: "map name (getAllShortcuts ex_numeric) = [''second'', ''first'', ''third'']"
    by code_simp
  from getAllShortcuts_sorted [where st = ex_numeric and w = MAX_SAFE_INTEGER] clean(3)
  have 10: "filter (\<lambda>x. orderOrMax x = MAX_SAFE_INTEGER) (getAllShortcuts ex_numeric) =
     filter (\<lambda>x. orderOrMax x = MAX_SAFE_INTEGER)
       (concat (Object_values (shortcuts ex_numeric)))"
    by blast
  from 1 names orders clean(1) 2 3 large 4 ok tools_names 5 6 clean_tools sorted_tools
    7 8 9 10
  show ?thesis
    by (intro conjI)
qed

text \<open>
  Claim C3 as stated fails in four ways. An entry whose order is \<open>2 ^ 53\<close> is listed behind
  an entry that has no order. Right after the two registrations of the scenario the
  sequence is empty; it lists \<open>next\<close> and \<open>del\<close> once the pending timeout has run, so two
  calls with no registration between them differ. With the orders 2, \<open>NaN\<close> and 1 the
  sequence is not ascending. The entry of a category named \<open>__proto__\<close> is registered but
  is not in the sequence, also after the recomputation.
\<close>

theorem getAllShortcuts_counterexample:
  "map name (getAllShortcuts ex_large_order) = [''grid'', ''zoom''] \<and>
   map order (getAllShortcuts ex_large_order) = [None, Some (Finite 9007199254740992)] \<and>
   hasShortcut ''nav'' ''next'' ex_two_registered \<and>
   hasShortcut ''edit'' ''del'' ex_two_registered \<and>
   getAllShortcuts ex_two_registered = [] \<and>
   map name (getAllShortcuts (timerFires 2 ex_two_registered)) = [''next'', ''del''] \<and>
   map order (getAllShortcuts ex_nan) = [Some (Finite 2), Some NaN, Some (Finite 1)] \<and>
   hasShortcut ''__proto__'' ''hidden'' ex_proto \<and>
   timers ex_proto = [] \<and>
   getAllShortcuts ex_proto = []"
  by code_simp

end
